theory Spec2Isabelle
  imports Complex_Main "HOL-Library.AList" "HOL-Library.Multiset"
    "HOL-Library.Char_ord" "HOL-Library.List_Lexorder"
begin

section \<open>JavaScript values used by the scripts\<close>

text \<open>
  The scripts are \<^verbatim>\<open>final_index.js\<close> (EMA-50/200 and EMA-100/200 variants),
  \<^verbatim>\<open>pct_index.js\<close> (EMA-75/200) and \<^verbatim>\<open>hh_llindex.js\<close> (90-day higher-high /
  lower-low). Numbers are modelled as exact reals: the rounding of IEEE doubles is
  outside the model. A cell of a padded indicator array is a number, \<^verbatim>\<open>null\<close>
  (written by \<^verbatim>\<open>padEMA\<close>) or \<^verbatim>\<open>undefined\<close> (a read past the end of an array).
\<close>

datatype jsval = Undefined | Null | Num real

text \<open>\<^verbatim>\<open>arr[i]\<close>: a read past the end yields \<^verbatim>\<open>undefined\<close>.\<close>

definition nth_js :: "jsval list \<Rightarrow> nat \<Rightarrow> jsval" where
  "nth_js arr i = (if i < length arr then arr ! i else Undefined)"

text \<open>
  \<^verbatim>\<open>c > v\<close> for a number \<open>c\<close>: \<^verbatim>\<open>null\<close> converts to \<open>0\<close>, \<^verbatim>\<open>undefined\<close> to
  \<^verbatim>\<open>NaN\<close>, and every comparison with \<^verbatim>\<open>NaN\<close> is false.
\<close>

fun gt_js :: "real \<Rightarrow> jsval \<Rightarrow> bool" where
  "gt_js c (Num e) = (c > e)"
| "gt_js c Null = (c > 0)"
| "gt_js c Undefined = False"

text \<open>\<^verbatim>\<open>v !== null\<close>\<close>

fun not_null :: "jsval \<Rightarrow> bool" where
  "not_null Null = False"
| "not_null _ = True"

datatype error = TransportError | DecodeError | ReferenceError | RangeError | TypeError

section \<open>Indicator engine\<close>

text \<open>
  Modelled from the spec: \<^verbatim>\<open>EMA.calculate\<close> of the package \<^verbatim>\<open>technicalindicators\<close>
  is not part of the sources. The spec describes it as the standard recursive EMA: the
  seed is the simple mean of the first \<open>p\<close> closes, and each later close gives
  \<open>ema[i] = close[i] * k + ema[i-1] * (1-k)\<close> with \<open>k = 2/(p+1)\<close>. The result has
  one value per close from index \<open>p-1\<close> on, and is empty for fewer than \<open>p\<close> closes.
\<close>

definition ema_k :: "nat \<Rightarrow> real" where
  "ema_k p = 2 / (real p + 1)"

fun ema_rec :: "real \<Rightarrow> real \<Rightarrow> real list \<Rightarrow> real list" where
  "ema_rec k prev [] = []"
| "ema_rec k prev (c # cs) = (let e = c * k + prev * (1 - k) in e # ema_rec k e cs)"

definition EMA_calculate :: "nat \<Rightarrow> real list \<Rightarrow> real list" where
  "EMA_calculate p vals =
     (if p = 0 \<or> length vals < p then []
      else let seed = sum_list (take p vals) / real p
           in seed # ema_rec (ema_k p) seed (drop p vals))"

text \<open>
  \<^verbatim>\<open>const padEMA = (arr, period) => Array(period - 1).fill(null).concat(arr)\<close>.
  \<^verbatim>\<open>Array(-1)\<close> throws a RangeError, so period \<open>0\<close> is an error.
\<close>

definition padEMA :: "real list \<Rightarrow> nat \<Rightarrow> error + jsval list" where
  "padEMA arr period =
     (if period = 0 then Inl RangeError
      else Inr (replicate (period - 1) Null @ map Num arr))"

section \<open>The external services\<close>

text \<open>
  The exchange-info endpoint, the klines endpoint and the date library are outside the
  program; an environment records what they answer. A request that fails (network
  error, non-2xx status) is \<open>Inl TransportError\<close>, a response whose body is no JSON is
  \<open>Inl DecodeError\<close>. Of a kline only the open time \<^verbatim>\<open>k[0]\<close> and the close
  \<^verbatim>\<open>+k[4]\<close> are read. The responses to the klines requests need not arrive in the
  order of the requests: \<open>arrival e i\<close> ranks the arrival of the response to the
  \<open>i\<close>-th task of \<^verbatim>\<open>Promise.all\<close>.
\<close>

type_synonym symbol = string
type_synonym date = string
type_synonym kline = "int \<times> real"

record symbol_info =
  s_symbol :: symbol
  s_status :: string
  s_isSpotTradingAllowed :: bool
  s_quoteAsset :: string

record env =
  exchangeInfo :: "error + symbol_info list"
  klines :: "symbol \<Rightarrow> error + kline list"
  dayjs_format :: "int \<Rightarrow> date"
  Date_parse :: "date \<Rightarrow> int option"
  arrival :: "nat \<Rightarrow> nat"

text \<open>
  \<^verbatim>\<open>httpGetJson\<close> rejects on a failed request and on a body that \<^verbatim>\<open>JSON.parse\<close>
  refuses, so both errors of the environment are errors of the call. \<^verbatim>\<open>axios.get\<close>
  rejects on a failed request only: a body that is no JSON is handed on as text
  (\<open>None\<close> here), and the call returns.
\<close>

definition axios_get :: "error + 'a \<Rightarrow> error + 'a option" where
  "axios_get response =
     (case response of
        Inl err \<Rightarrow> (if err = DecodeError then Inr None else Inl err)
      | Inr body \<Rightarrow> Inr (Some body))"

text \<open>
  Each task of \<^verbatim>\<open>Promise.all(symbols.map(...))\<close> awaits its klines response and then
  runs to its end without suspending again, so the task bodies run one after the other,
  in the order in which their responses arrive. Responses of equal rank keep the order
  of the requests.
\<close>

definition completion_order :: "env \<Rightarrow> symbol list \<Rightarrow> symbol list" where
  "completion_order e symbols =
     map snd (sort_key (\<lambda>p. arrival e (fst p)) (enumerate 0 symbols))"

text \<open>
  \<^verbatim>\<open>ex.symbols.filter(s => s.status==='TRADING' && s.isSpotTradingAllowed
     && s.quoteAsset===QUOTE).map(s => s.symbol)\<close>
\<close>

definition QUOTE :: string where
  "QUOTE = ''USDT''"

definition universe :: "symbol_info list \<Rightarrow> symbol list" where
  "universe symbols =
     map s_symbol
       (filter (\<lambda>s. s_status s = ''TRADING'' \<and> s_isSpotTradingAllowed s \<and> s_quoteAsset s = QUOTE)
          symbols)"

text \<open>
  The exit status of a script whose main promise rejects with no handler attached:
  Node 15 and later (the workflow pins Node 18) print the error and exit with code 1.
\<close>

definition unhandled_rejection_exit :: nat where
  "unhandled_rejection_exit = 1"

section \<open>Number formatting\<close>

text \<open>
  A quotient of two counts is \<^verbatim>\<open>NaN\<close> for \<open>0/0\<close> and \<^verbatim>\<open>Infinity\<close> for a positive
  count over \<open>0\<close>; \<^verbatim>\<open>toFixed(2)\<close> prints those two by name and rounds a finite
  number to hundredths, the larger candidate on a tie.
\<close>

datatype jsnum = NaN | Infinity | Fin real

definition js_div :: "nat \<Rightarrow> nat \<Rightarrow> jsnum" where
  "js_div a b = (if b = 0 then (if a = 0 then NaN else Infinity) else Fin (real a / real b))"

fun js_times :: "jsnum \<Rightarrow> real \<Rightarrow> jsnum" where
  "js_times NaN c = NaN"
| "js_times Infinity c = (if c = 0 then NaN else Infinity)"
| "js_times (Fin x) c = Fin (x * c)"

definition digit :: "nat \<Rightarrow> char" where
  "digit n = ''0123456789'' ! n"

function show_nat :: "nat \<Rightarrow> string" where
  "show_nat n = (if n < 10 then [digit n] else show_nat (n div 10) @ [digit (n mod 10)])"
  by pat_completeness auto
termination
  by (relation "measure id") auto

definition hundredths :: "real \<Rightarrow> nat" where
  "hundredths x = nat \<lfloor>x * 100 + 1 / 2\<rfloor>"

fun toFixed2 :: "jsnum \<Rightarrow> string" where
  "toFixed2 NaN = ''NaN''"
| "toFixed2 Infinity = ''Infinity''"
| "toFixed2 (Fin x) =
     (let n = hundredths x
      in show_nat (n div 100) @ ''.'' @ [digit (n mod 100 div 10), digit (n mod 10)])"

section \<open>final\_index.js, EMA-50/200\<close>

definition cutoff_final :: int where
  "cutoff_final = 1546300800000"

definition fetchDailyKlines_final :: "env \<Rightarrow> symbol \<Rightarrow> error + kline list" where
  "fetchDailyKlines_final e smb =
     (case klines e smb of
        Inl err \<Rightarrow> Inl err
      | Inr data \<Rightarrow> Inr (filter (\<lambda>bar. fst bar \<ge> cutoff_final) data))"

record counts =
  pos :: nat
  neg :: nat

record row_final =
  rf_symbol :: symbol
  rf_date :: date
  rf_close :: real
  rf_ema50 :: jsval
  rf_ema200 :: jsval
  rf_signal :: nat

text \<open>
  The shared containers of the run, with the klines requests answered so far and the
  per-instrument errors written to the console. A JavaScript object keeps its keys in
  insertion order: an association list, updated in place or extended at the end.
\<close>

record state_final =
  breadth :: "(date \<times> counts) list"
  rowsSym :: "row_final list"
  requests :: "symbol list"
  skipped :: "(symbol \<times> error) list"

definition init_final :: state_final where
  "init_final = \<lparr>breadth = [], rowsSym = [], requests = [], skipped = []\<rparr>"

text \<open>\<^verbatim>\<open>breadth[d] || { pos:0, neg:0 }\<close>\<close>

definition counts_or_zero :: "(date \<times> counts) list \<Rightarrow> date \<Rightarrow> counts" where
  "counts_or_zero b d = (case map_of b d of Some c \<Rightarrow> c | None \<Rightarrow> \<lparr>pos = 0, neg = 0\<rparr>)"

text \<open>
  \<^verbatim>\<open>breadth[d] = breadth[d] || { pos:0, neg:0 }; breadth[d][ ok? 'pos':'neg' ]++\<close>
\<close>

definition bump :: "date \<Rightarrow> bool \<Rightarrow> (date \<times> counts) list \<Rightarrow> (date \<times> counts) list" where
  "bump d ok b =
     (let c = counts_or_zero b d
      in AList.update d (if ok then c\<lparr>pos := pos c + 1\<rparr> else c\<lparr>neg := neg c + 1\<rparr>) b)"

definition ok_final :: "real list \<Rightarrow> jsval list \<Rightarrow> jsval list \<Rightarrow> nat \<Rightarrow> bool" where
  "ok_final closes ema50 ema200 i =
     (gt_js (closes ! i) (nth_js ema50 i) \<and> gt_js (closes ! i) (nth_js ema200 i))"

definition mk_row_final ::
  "symbol \<Rightarrow> real list \<Rightarrow> date list \<Rightarrow> jsval list \<Rightarrow> jsval list \<Rightarrow> nat \<Rightarrow> row_final" where
  "mk_row_final smb closes dates ema50 ema200 i =
     \<lparr>rf_symbol = smb, rf_date = dates ! i, rf_close = closes ! i,
      rf_ema50 = nth_js ema50 i, rf_ema200 = nth_js ema200 i,
      rf_signal = (if ok_final closes ema50 ema200 i then 1 else 0)\<rparr>"

text \<open>One pass of the body of \<^verbatim>\<open>for (let i=0; i<closes.length; i++)\<close>.\<close>

definition bar_step_final ::
  "symbol \<Rightarrow> real list \<Rightarrow> date list \<Rightarrow> jsval list \<Rightarrow> jsval list \<Rightarrow> nat
     \<Rightarrow> state_final \<Rightarrow> state_final" where
  "bar_step_final smb closes dates ema50 ema200 i st =
     st\<lparr>breadth := bump (dates ! i) (ok_final closes ema50 ema200 i) (breadth st),
        rowsSym := rowsSym st @ [mk_row_final smb closes dates ema50 ema200 i]\<rparr>"

text \<open>
  The task run for one symbol: everything is inside \<^verbatim>\<open>try\<close>, and the handler only
  writes to the console.
\<close>

definition processSymbol_final :: "env \<Rightarrow> symbol \<Rightarrow> state_final \<Rightarrow> state_final" where
  "processSymbol_final e smb st0 =
     (let st = st0\<lparr>requests := requests st0 @ [smb]\<rparr>
      in case fetchDailyKlines_final e smb of
           Inl err \<Rightarrow> st\<lparr>skipped := skipped st @ [(smb, err)]\<rparr>
         | Inr kl \<Rightarrow>
             if length kl < 200 then st
             else
               let closes = map snd kl;
                   dates = map (\<lambda>x. dayjs_format e (fst x)) kl
               in case padEMA (EMA_calculate 50 closes) 50 of
                    Inl err \<Rightarrow> st\<lparr>skipped := skipped st @ [(smb, err)]\<rparr>
                  | Inr ema50 \<Rightarrow>
                      (case padEMA (EMA_calculate 200 closes) 200 of
                         Inl err \<Rightarrow> st\<lparr>skipped := skipped st @ [(smb, err)]\<rparr>
                       | Inr ema200 \<Rightarrow>
                           fold (bar_step_final smb closes dates ema50 ema200)
                             [0..<length closes] st))"

record breadth_row =
  br_date :: date
  br_positive :: nat
  br_negative :: nat
  br_pos_pct :: string
  br_neg_pct :: string

definition breadth_record :: "(date \<times> counts) list \<Rightarrow> date \<Rightarrow> breadth_row" where
  "breadth_record b d =
     (let c = counts_or_zero b d;
          tot = pos c + neg c
      in \<lparr>br_date = d, br_positive = pos c, br_negative = neg c,
          br_pos_pct = toFixed2 (js_times (js_div (pos c) tot) 100),
          br_neg_pct = toFixed2 (js_times (js_div (neg c) tot) 100)\<rparr>)"

text \<open>\<^verbatim>\<open>Object.keys(breadth).sort().map(d => ...)\<close>\<close>

definition breadth_records :: "(date \<times> counts) list \<Rightarrow> breadth_row list" where
  "breadth_records b = map (breadth_record b) (sort (map fst b))"

text \<open>
  What a run does that can be seen from outside: its exit status, the error that ended
  it, the klines requests in the order in which they were answered, the instruments it
  skipped on an error in the order of the console log, and the records handed to the CSV
  writer for each file (\<open>None\<close>: the file is not written).
\<close>

record result_final =
  exit_final :: nat
  fatal_final :: "error option"
  requests_final :: "symbol list"
  skipped_final :: "(symbol \<times> error) list"
  breadth_csv :: "breadth_row list option"
  values_csv :: "row_final list option"

text \<open>
  The tasks and the two writers, for the list of symbols in the order in which the task
  bodies run.
\<close>

definition run_final :: "env \<Rightarrow> symbol list \<Rightarrow> result_final" where
  "run_final e symbols =
     (let st = fold (processSymbol_final e) symbols init_final
      in \<lparr>exit_final = 0, fatal_final = None,
          requests_final = requests st, skipped_final = skipped st,
          breadth_csv = Some (breadth_records (breadth st)),
          values_csv = Some (rowsSym st)\<rparr>)"

text \<open>
  The main function has no handler: a failed exchange-info request rejects its promise.
\<close>

definition main_final :: "env \<Rightarrow> result_final" where
  "main_final e =
     (case exchangeInfo e of
        Inl err \<Rightarrow>
          \<lparr>exit_final = unhandled_rejection_exit, fatal_final = Some err,
           requests_final = [], skipped_final = [],
           breadth_csv = None, values_csv = None\<rparr>
      | Inr ex \<Rightarrow> run_final e (completion_order e (universe ex)))"

section \<open>final\_index.js, EMA-100/200\<close>

definition START_MS :: int where
  "START_MS = 1559347200000"

text \<open>
  \<^verbatim>\<open>resp.data.filter(bar => bar[0] >= START_MS)\<close>: on a body handed on as text,
  \<^verbatim>\<open>filter\<close> is not a function and the call throws a TypeError.
\<close>

definition fetchKlines_ema100 :: "env \<Rightarrow> symbol \<Rightarrow> error + kline list" where
  "fetchKlines_ema100 e smb =
     (case axios_get (klines e smb) of
        Inl err \<Rightarrow> Inl err
      | Inr None \<Rightarrow> Inl TypeError
      | Inr (Some data) \<Rightarrow> Inr (filter (\<lambda>bar. fst bar \<ge> START_MS) data))"

record row_ema100 =
  rh_symbol :: symbol
  rh_date :: date
  rh_close :: real
  rh_ema100 :: jsval
  rh_ema200 :: jsval
  rh_signal :: nat

record state_ema100 =
  breadth_h :: "(date \<times> counts) list"
  perSymbolRows :: "row_ema100 list"
  requests_h :: "symbol list"
  skipped_h :: "(symbol \<times> error) list"

definition init_ema100 :: state_ema100 where
  "init_ema100 = \<lparr>breadth_h = [], perSymbolRows = [], requests_h = [], skipped_h = []\<rparr>"

definition above_ema100 :: "real list \<Rightarrow> jsval list \<Rightarrow> jsval list \<Rightarrow> nat \<Rightarrow> bool" where
  "above_ema100 closes ema100 ema200 i =
     (gt_js (closes ! i) (nth_js ema100 i) \<and> gt_js (closes ! i) (nth_js ema200 i))"

definition mk_row_ema100 ::
  "symbol \<Rightarrow> real list \<Rightarrow> date list \<Rightarrow> jsval list \<Rightarrow> jsval list \<Rightarrow> nat \<Rightarrow> row_ema100" where
  "mk_row_ema100 smb closes dates ema100 ema200 i =
     \<lparr>rh_symbol = smb, rh_date = dates ! i, rh_close = closes ! i,
      rh_ema100 = nth_js ema100 i, rh_ema200 = nth_js ema200 i,
      rh_signal =
        (if not_null (nth_js ema100 i) \<and> not_null (nth_js ema200 i)
            \<and> above_ema100 closes ema100 ema200 i
         then 1 else 0)\<rparr>"

text \<open>
  The row is pushed for every bar; the comment on the second half reads
  ``update breadth only once both EMAs exist''.
\<close>

definition bar_step_ema100 ::
  "symbol \<Rightarrow> real list \<Rightarrow> date list \<Rightarrow> jsval list \<Rightarrow> jsval list \<Rightarrow> nat
     \<Rightarrow> state_ema100 \<Rightarrow> state_ema100" where
  "bar_step_ema100 smb closes dates ema100 ema200 i st =
     (let st1 = st\<lparr>perSymbolRows :=
                   perSymbolRows st @ [mk_row_ema100 smb closes dates ema100 ema200 i]\<rparr>
      in if not_null (nth_js ema200 i)
         then st1\<lparr>breadth_h :=
                   bump (dates ! i) (above_ema100 closes ema100 ema200 i) (breadth_h st1)\<rparr>
         else st1)"

definition processSymbol_ema100 :: "env \<Rightarrow> symbol \<Rightarrow> state_ema100 \<Rightarrow> state_ema100" where
  "processSymbol_ema100 e smb st0 =
     (let st = st0\<lparr>requests_h := requests_h st0 @ [smb]\<rparr>
      in case fetchKlines_ema100 e smb of
           Inl err \<Rightarrow> st\<lparr>skipped_h := skipped_h st @ [(smb, err)]\<rparr>
         | Inr kl \<Rightarrow>
             if length kl < 200 then st
             else
               let closes = map snd kl;
                   dates = map (\<lambda>k. dayjs_format e (fst k)) kl
               in case padEMA (EMA_calculate 100 closes) 100 of
                    Inl err \<Rightarrow> st\<lparr>skipped_h := skipped_h st @ [(smb, err)]\<rparr>
                  | Inr ema100 \<Rightarrow>
                      (case padEMA (EMA_calculate 200 closes) 200 of
                         Inl err \<Rightarrow> st\<lparr>skipped_h := skipped_h st @ [(smb, err)]\<rparr>
                       | Inr ema200 \<Rightarrow>
                           fold (bar_step_ema100 smb closes dates ema100 ema200)
                             [0..<length closes] st))"

record result_ema100 =
  exit_h :: nat
  fatal_h :: "error option"
  requests_out_h :: "symbol list"
  breadth_csv_h :: "breadth_row list option"
  values_csv_h :: "row_ema100 list option"

text \<open>
  The identifiers that the file binds: its \<^verbatim>\<open>const\<close> declarations and functions at
  top level, and the two constants of the main function that precede the universe.
  Node has no global of the name \<^verbatim>\<open>data\<close> either.
\<close>

definition declared_ema100 :: "string list" where
  "declared_ema100 =
     [''axios'', ''dayjs'', ''EMA'', ''createObjectCsvWriter'', ''BASE_URL'', ''QUOTE_FILTER'',
      ''INTERVAL'', ''START_DATE'', ''START_MS'', ''CONCURRENCY'', ''LIMIT_PER_CALL'',
      ''fetchKlines'', ''padEMA'', ''pLimit'', ''exInfoResp'']"

text \<open>Steps 2 to 5 of the main function: the tasks, then the two files.\<close>

definition run_ema100 :: "env \<Rightarrow> symbol list \<Rightarrow> result_ema100" where
  "run_ema100 e symbols =
     (let st = fold (processSymbol_ema100 e) symbols init_ema100
      in \<lparr>exit_h = 0, fatal_h = None, requests_out_h = requests_h st,
          breadth_csv_h = Some (breadth_records (breadth_h st)),
          values_csv_h = Some (perSymbolRows st)\<rparr>)"

text \<open>
  The main function: after \<^verbatim>\<open>await axios.get(.../exchangeInfo)\<close> comes
  \<^verbatim>\<open>if (!Array.isArray(data))\<close>. Evaluating an identifier that nothing binds throws a
  ReferenceError, and then nothing after it runs; were it bound, the function would go on
  to \<^verbatim>\<open>exInfoResp.data.symbols.filter(...)\<close>, which throws a TypeError on a body handed
  on as text. The promise has the handler
  \<^verbatim>\<open>.catch(err => { console.error(...); process.exit(1) })\<close>.
\<close>

definition fatal_ema100 :: "error \<Rightarrow> result_ema100" where
  "fatal_ema100 err =
     \<lparr>exit_h = 1, fatal_h = Some err, requests_out_h = [],
      breadth_csv_h = None, values_csv_h = None\<rparr>"

definition main_ema100 :: "env \<Rightarrow> result_ema100" where
  "main_ema100 e =
     (case axios_get (exchangeInfo e) of
        Inl err \<Rightarrow> fatal_ema100 err
      | Inr exInfoResp \<Rightarrow>
          if ''data'' \<in> set declared_ema100
          then (case exInfoResp of
                  None \<Rightarrow> fatal_ema100 TypeError
                | Some ex \<Rightarrow> run_ema100 e (completion_order e (universe ex)))
          else fatal_ema100 ReferenceError)"

section \<open>pct\_index.js, EMA-75/200\<close>

definition cutoff_pct :: int where
  "cutoff_pct = 1685577600000"

definition fetchKlines_pct :: "env \<Rightarrow> symbol \<Rightarrow> error + kline list" where
  "fetchKlines_pct e smb =
     (case klines e smb of
        Inl err \<Rightarrow> Inl err
      | Inr data \<Rightarrow> Inr (filter (\<lambda>bar. fst bar \<ge> cutoff_pct) data))"

record tally =
  a75 :: nat
  t75 :: nat
  a200 :: nat
  t200 :: nat

record row_pct =
  rp_symbol :: symbol
  rp_date :: date
  rp_close :: real
  rp_ema75 :: jsval
  rp_ema200 :: jsval
  rp_above75 :: bool
  rp_above200 :: bool
  rp_signal :: nat

record state_pct =
  breadth_p :: "(date \<times> tally) list"
  rowsSym_p :: "row_pct list"
  requests_p :: "symbol list"
  skipped_p :: "(symbol \<times> error) list"

definition init_pct :: state_pct where
  "init_pct = \<lparr>breadth_p = [], rowsSym_p = [], requests_p = [], skipped_p = []\<rparr>"

text \<open>\<^verbatim>\<open>breadth[d] || { a75:0,t75:0,a200:0,t200:0 }\<close>\<close>

definition tally_or_zero :: "(date \<times> tally) list \<Rightarrow> date \<Rightarrow> tally" where
  "tally_or_zero b d =
     (case map_of b d of Some c \<Rightarrow> c | None \<Rightarrow> \<lparr>a75 = 0, t75 = 0, a200 = 0, t200 = 0\<rparr>)"

definition above_pct :: "real list \<Rightarrow> jsval list \<Rightarrow> nat \<Rightarrow> bool" where
  "above_pct closes ema i = (not_null (nth_js ema i) \<and> gt_js (closes ! i) (nth_js ema i))"

text \<open>
  The entry of the date is created for every bar; each pair of counters moves only
  when its own EMA is not \<^verbatim>\<open>null\<close>.
\<close>

definition tally_step :: "bool \<Rightarrow> bool \<Rightarrow> bool \<Rightarrow> bool \<Rightarrow> tally \<Rightarrow> tally" where
  "tally_step has75 above75 has200 above200 c =
     (let c1 = (if has75
                then (let c' = c\<lparr>t75 := t75 c + 1\<rparr>
                      in if above75 then c'\<lparr>a75 := a75 c' + 1\<rparr> else c')
                else c)
      in if has200
         then (let c' = c1\<lparr>t200 := t200 c1 + 1\<rparr>
               in if above200 then c'\<lparr>a200 := a200 c' + 1\<rparr> else c')
         else c1)"

definition mk_row_pct ::
  "symbol \<Rightarrow> real list \<Rightarrow> date list \<Rightarrow> jsval list \<Rightarrow> jsval list \<Rightarrow> nat \<Rightarrow> row_pct" where
  "mk_row_pct smb closes dates ema75 ema200 i =
     \<lparr>rp_symbol = smb, rp_date = dates ! i, rp_close = closes ! i,
      rp_ema75 = nth_js ema75 i, rp_ema200 = nth_js ema200 i,
      rp_above75 = above_pct closes ema75 i, rp_above200 = above_pct closes ema200 i,
      rp_signal = (if above_pct closes ema75 i \<and> above_pct closes ema200 i then 1 else 0)\<rparr>"

definition bar_step_pct ::
  "symbol \<Rightarrow> real list \<Rightarrow> date list \<Rightarrow> jsval list \<Rightarrow> jsval list \<Rightarrow> nat
     \<Rightarrow> state_pct \<Rightarrow> state_pct" where
  "bar_step_pct smb closes dates ema75 ema200 i st =
     (let d = dates ! i;
          c = tally_or_zero (breadth_p st) d;
          c' = tally_step (not_null (nth_js ema75 i)) (above_pct closes ema75 i)
                 (not_null (nth_js ema200 i)) (above_pct closes ema200 i) c
      in st\<lparr>breadth_p := AList.update d c' (breadth_p st),
            rowsSym_p := rowsSym_p st @ [mk_row_pct smb closes dates ema75 ema200 i]\<rparr>)"

definition processSymbol_pct :: "env \<Rightarrow> symbol \<Rightarrow> state_pct \<Rightarrow> state_pct" where
  "processSymbol_pct e smb st0 =
     (let st = st0\<lparr>requests_p := requests_p st0 @ [smb]\<rparr>
      in case fetchKlines_pct e smb of
           Inl err \<Rightarrow> st\<lparr>skipped_p := skipped_p st @ [(smb, err)]\<rparr>
         | Inr kl \<Rightarrow>
             if length kl < 200 then st
             else
               let closes = map snd kl;
                   dates = map (\<lambda>x. dayjs_format e (fst x)) kl
               in case padEMA (EMA_calculate 75 closes) 75 of
                    Inl err \<Rightarrow> st\<lparr>skipped_p := skipped_p st @ [(smb, err)]\<rparr>
                  | Inr ema75 \<Rightarrow>
                      (case padEMA (EMA_calculate 200 closes) 200 of
                         Inl err \<Rightarrow> st\<lparr>skipped_p := skipped_p st @ [(smb, err)]\<rparr>
                       | Inr ema200 \<Rightarrow>
                           fold (bar_step_pct smb closes dates ema75 ema200)
                             [0..<length closes] st))"

record daily_row =
  dr_date :: date
  pct_above_75 :: string
  pct_above_200 :: string

definition daily_record :: "(date \<times> tally) list \<Rightarrow> date \<Rightarrow> daily_row" where
  "daily_record b d =
     (let c = tally_or_zero b d
      in \<lparr>dr_date = d,
          pct_above_75 = toFixed2 (js_times (js_div (a75 c) (t75 c)) 100),
          pct_above_200 = toFixed2 (js_times (js_div (a200 c) (t200 c)) 100)\<rparr>)"

definition daily :: "(date \<times> tally) list \<Rightarrow> daily_row list" where
  "daily b = map (daily_record b) (sort (map fst b))"

record result_pct =
  exit_p :: nat
  fatal_p :: "error option"
  requests_out_p :: "symbol list"
  skipped_out_p :: "(symbol \<times> error) list"
  breadth_pct_csv :: "daily_row list option"
  values_csv_p :: "row_pct list option"

definition run_pct :: "env \<Rightarrow> symbol list \<Rightarrow> result_pct" where
  "run_pct e symbols =
     (let st = fold (processSymbol_pct e) symbols init_pct
      in \<lparr>exit_p = 0, fatal_p = None,
          requests_out_p = requests_p st, skipped_out_p = skipped_p st,
          breadth_pct_csv = Some (daily (breadth_p st)),
          values_csv_p = Some (rowsSym_p st)\<rparr>)"

text \<open>
  The main promise has the handler
  \<^verbatim>\<open>.catch(err => { console.error('Fatal error:', err); process.exit(1) })\<close>.
\<close>

definition main_pct :: "env \<Rightarrow> result_pct" where
  "main_pct e =
     (case exchangeInfo e of
        Inl err \<Rightarrow>
          \<lparr>exit_p = 1, fatal_p = Some err, requests_out_p = [], skipped_out_p = [],
           breadth_pct_csv = None, values_csv_p = None\<rparr>
      | Inr ex \<Rightarrow> run_pct e (completion_order e (universe ex)))"

section \<open>hh\_llindex.js, 90-day higher highs and lower lows\<close>

definition LOOKBACK_DAYS :: nat where
  "LOOKBACK_DAYS = 90"

definition ANALYSIS_START :: date where
  "ANALYSIS_START = ''2024-01-01''"

text \<open>
  \<^verbatim>\<open>START_DATE\<close> is 90 days before \<^verbatim>\<open>ANALYSIS_START\<close>, that is 2023-10-03, and the
  cutoff is \<^verbatim>\<open>Date.parse('2023-10-03T00:00:00Z')\<close>.
\<close>

definition cutoff_hhll :: int where
  "cutoff_hhll = 1696291200000"

type_synonym candle = "date \<times> real"

text \<open>
  \<^verbatim>\<open>Date.parse\<close> of a string that is no date is \<^verbatim>\<open>NaN\<close> (here \<open>None\<close>), and
  \<^verbatim>\<open>NaN >= cutoff\<close> is false.
\<close>

definition fetchDailyKlines_hhll :: "env \<Rightarrow> symbol \<Rightarrow> error + candle list" where
  "fetchDailyKlines_hhll e smb =
     (case klines e smb of
        Inl err \<Rightarrow> Inl err
      | Inr data \<Rightarrow>
          Inr (filter (\<lambda>bar. case Date_parse e (fst bar) of
                              None \<Rightarrow> False
                            | Some t \<Rightarrow> t \<ge> cutoff_hhll)
                 (map (\<lambda>k. (dayjs_format e (fst k), snd k)) data)))"

text \<open>
  \<^verbatim>\<open>Math.max(...w)\<close> and \<^verbatim>\<open>Math.min(...w)\<close>: with no argument they are
  \<^verbatim>\<open>-Infinity\<close> and \<^verbatim>\<open>Infinity\<close>.
\<close>

datatype bound = NegInf | PosInf | Val real

fun Math_max :: "real list \<Rightarrow> bound" where
  "Math_max [] = NegInf"
| "Math_max (x # xs) = Val (fold max xs x)"

fun Math_min :: "real list \<Rightarrow> bound" where
  "Math_min [] = PosInf"
| "Math_min (x # xs) = Val (fold min xs x)"

fun gt_bound :: "real \<Rightarrow> bound \<Rightarrow> bool" where
  "gt_bound c NegInf = True"
| "gt_bound c PosInf = False"
| "gt_bound c (Val m) = (c > m)"

fun lt_bound :: "real \<Rightarrow> bound \<Rightarrow> bool" where
  "lt_bound c NegInf = False"
| "lt_bound c PosInf = True"
| "lt_bound c (Val m) = (c < m)"

record flag_state =
  hh_flags :: "(date \<times> bool) list"
  ll_flags :: "(date \<times> bool) list"
  window90 :: "real list"

definition flag_init :: flag_state where
  "flag_init = \<lparr>hh_flags = [], ll_flags = [], window90 = []\<rparr>"

text \<open>
  One pass of \<^verbatim>\<open>for (const { date, close } of candles)\<close>, with the length of the
  window as a parameter. \<^verbatim>\<open>shift()\<close> on an empty array leaves it empty.
\<close>

definition flag_step :: "nat \<Rightarrow> candle \<Rightarrow> flag_state \<Rightarrow> flag_state" where
  "flag_step lookback c st =
     (let date = fst c; close = snd c
      in if length (window90 st) < lookback
         then st\<lparr>hh_flags := AList.update date False (hh_flags st),
                 ll_flags := AList.update date False (ll_flags st),
                 window90 := window90 st @ [close]\<rparr>
         else
           let max90 = Math_max (window90 st);
               min90 = Math_min (window90 st)
           in st\<lparr>hh_flags := AList.update date (gt_bound close max90) (hh_flags st),
                 ll_flags := AList.update date (lt_bound close min90) (ll_flags st),
                 window90 := tl (window90 st) @ [close]\<rparr>)"

definition flag_loop :: "nat \<Rightarrow> candle list \<Rightarrow> flag_state" where
  "flag_loop lookback candles = fold (flag_step lookback) candles flag_init"

definition flagHHLLforSymbol ::
  "env \<Rightarrow> symbol \<Rightarrow> error + ((date \<times> bool) list \<times> (date \<times> bool) list)" where
  "flagHHLLforSymbol e smb =
     (case fetchDailyKlines_hhll e smb of
        Inl err \<Rightarrow> Inl err
      | Inr candles \<Rightarrow>
          (let st = flag_loop LOOKBACK_DAYS candles in Inr (hh_flags st, ll_flags st)))"

text \<open>
  \<^verbatim>\<open>allDates\<close> is a \<^verbatim>\<open>Set\<close>, which keeps insertion order; the two count objects
  hold a number per date.
\<close>

record state_hhll =
  allDates :: "date list"
  hh_counts :: "(date \<times> nat) list"
  ll_counts :: "(date \<times> nat) list"
  requests_x :: "symbol list"
  skipped_x :: "(symbol \<times> error) list"

definition init_hhll :: state_hhll where
  "init_hhll = \<lparr>allDates = [], hh_counts = [], ll_counts = [], requests_x = [], skipped_x = []\<rparr>"

definition set_add :: "date \<Rightarrow> date list \<Rightarrow> date list" where
  "set_add d ds = (if d \<in> set ds then ds else ds @ [d])"

text \<open>\<^verbatim>\<open>counts[d] || 0\<close>\<close>

definition count_or_zero :: "(date \<times> nat) list \<Rightarrow> date \<Rightarrow> nat" where
  "count_or_zero m d = (case map_of m d of Some n \<Rightarrow> n | None \<Rightarrow> 0)"

text \<open>\<^verbatim>\<open>if (flags[d])\<close>\<close>

definition flag_set :: "(date \<times> bool) list \<Rightarrow> date \<Rightarrow> bool" where
  "flag_set fl d = (map_of fl d = Some True)"

definition incr :: "date \<Rightarrow> (date \<times> nat) list \<Rightarrow> (date \<times> nat) list" where
  "incr d m = AList.update d (count_or_zero m d + 1) m"

text \<open>One pass of \<^verbatim>\<open>for (const date of Object.keys(hh_flags))\<close>.\<close>

definition date_step ::
  "(date \<times> bool) list \<Rightarrow> (date \<times> bool) list \<Rightarrow> date \<Rightarrow> state_hhll \<Rightarrow> state_hhll" where
  "date_step hh ll d st =
     (let st1 = st\<lparr>allDates := set_add d (allDates st)\<rparr>
      in if d < ANALYSIS_START then st1
         else
           let st2 = (if flag_set hh d then st1\<lparr>hh_counts := incr d (hh_counts st1)\<rparr> else st1)
           in if flag_set ll d then st2\<lparr>ll_counts := incr d (ll_counts st2)\<rparr> else st2)"

definition processSymbol_hhll :: "env \<Rightarrow> symbol \<Rightarrow> state_hhll \<Rightarrow> state_hhll" where
  "processSymbol_hhll e smb st0 =
     (let st = st0\<lparr>requests_x := requests_x st0 @ [smb]\<rparr>
      in case flagHHLLforSymbol e smb of
           Inl err \<Rightarrow> st\<lparr>skipped_x := skipped_x st @ [(smb, err)]\<rparr>
         | Inr (hh, ll) \<Rightarrow> fold (date_step hh ll) (map fst hh) st)"

record hhll_row =
  hr_date :: date
  hh_count :: nat
  ll_count :: nat
  net_count :: int

definition hhll_record :: "state_hhll \<Rightarrow> date \<Rightarrow> hhll_row" where
  "hhll_record st d =
     \<lparr>hr_date = d,
      hh_count = count_or_zero (hh_counts st) d,
      ll_count = count_or_zero (ll_counts st) d,
      net_count = int (count_or_zero (hh_counts st) d) - int (count_or_zero (ll_counts st) d)\<rparr>"

text \<open>
  The key of \<^verbatim>\<open>.sort((a,b) => new Date(a) - new Date(b))\<close>. Every date of
  \<^verbatim>\<open>allDates\<close> has passed the filter of the fetch, so it parses; the sort is stable.
\<close>

definition date_key :: "env \<Rightarrow> date \<Rightarrow> int" where
  "date_key e d = (case Date_parse e d of Some t \<Rightarrow> t | None \<Rightarrow> 0)"

definition output_hhll :: "env \<Rightarrow> state_hhll \<Rightarrow> hhll_row list" where
  "output_hhll e st =
     map (hhll_record st)
       (sort_key (date_key e) (filter (\<lambda>d. d \<ge> ANALYSIS_START) (allDates st)))"

record result_hhll =
  exit_x :: nat
  fatal_x :: "error option"
  requests_out_x :: "symbol list"
  skipped_out_x :: "(symbol \<times> error) list"
  hh_ll_net_csv :: "hhll_row list option"

definition run_hhll :: "env \<Rightarrow> symbol list \<Rightarrow> result_hhll" where
  "run_hhll e symbols =
     (let st = fold (processSymbol_hhll e) symbols init_hhll
      in \<lparr>exit_x = 0, fatal_x = None,
          requests_out_x = requests_x st, skipped_out_x = skipped_x st,
          hh_ll_net_csv = Some (output_hhll e st)\<rparr>)"

text \<open>The main function has no handler, as in the EMA-50/200 script.\<close>

definition main_hhll :: "env \<Rightarrow> result_hhll" where
  "main_hhll e =
     (case exchangeInfo e of
        Inl err \<Rightarrow>
          \<lparr>exit_x = unhandled_rejection_exit, fatal_x = Some err,
           requests_out_x = [], skipped_out_x = [], hh_ll_net_csv = None\<rparr>
      | Inr exInfo \<Rightarrow> run_hhll e (completion_order e (universe exInfo)))"

section \<open>What one instrument contributes\<close>

text \<open>
  The padded series that \<^verbatim>\<open>padEMA\<close> returns for a period above zero, and the effect
  of one task on each shared container, written as the list of updates it applies.
\<close>

definition series :: "nat \<Rightarrow> real list \<Rightarrow> jsval list" where
  "series p closes = replicate (p - 1) Null @ map Num (EMA_calculate p closes)"

definition bumps :: "(date \<times> bool) list \<Rightarrow> (date \<times> counts) list \<Rightarrow> (date \<times> counts) list" where
  "bumps cs b = fold (\<lambda>c. bump (fst c) (snd c)) cs b"

definition contribs_final :: "env \<Rightarrow> symbol \<Rightarrow> (date \<times> bool) list" where
  "contribs_final e smb =
     (case fetchDailyKlines_final e smb of
        Inl err \<Rightarrow> []
      | Inr kl \<Rightarrow>
          if length kl < 200 then []
          else map (\<lambda>i. (dayjs_format e (fst (kl ! i)),
                          ok_final (map snd kl) (series 50 (map snd kl)) (series 200 (map snd kl)) i))
                 [0..<length kl])"

definition rows_final :: "env \<Rightarrow> symbol \<Rightarrow> row_final list" where
  "rows_final e smb =
     (case fetchDailyKlines_final e smb of
        Inl err \<Rightarrow> []
      | Inr kl \<Rightarrow>
          if length kl < 200 then []
          else map (mk_row_final smb (map snd kl) (map (\<lambda>x. dayjs_format e (fst x)) kl)
                      (series 50 (map snd kl)) (series 200 (map snd kl)))
                 [0..<length kl])"

definition incrs :: "date list \<Rightarrow> (date \<times> nat) list \<Rightarrow> (date \<times> nat) list" where
  "incrs ds m = fold incr ds m"

definition dates_hhll :: "env \<Rightarrow> symbol \<Rightarrow> date list" where
  "dates_hhll e smb =
     (case flagHHLLforSymbol e smb of Inl err \<Rightarrow> [] | Inr (hh, ll) \<Rightarrow> map fst hh)"

definition hh_incs :: "env \<Rightarrow> symbol \<Rightarrow> date list" where
  "hh_incs e smb =
     (case flagHHLLforSymbol e smb of Inl err \<Rightarrow> [] | Inr (hh, ll) \<Rightarrow>
        filter (\<lambda>d. \<not> d < ANALYSIS_START \<and> flag_set hh d) (map fst hh))"

definition ll_incs :: "env \<Rightarrow> symbol \<Rightarrow> date list" where
  "ll_incs e smb =
     (case flagHHLLforSymbol e smb of Inl err \<Rightarrow> [] | Inr (hh, ll) \<Rightarrow>
        filter (\<lambda>d. \<not> d < ANALYSIS_START \<and> flag_set ll d) (map fst hh))"

definition fetch_ok :: "env \<Rightarrow> symbol \<Rightarrow> bool" where
  "fetch_ok e smb = (case klines e smb of Inl err \<Rightarrow> False | Inr data \<Rightarrow> True)"

definition fetch_errors :: "env \<Rightarrow> symbol list \<Rightarrow> (symbol \<times> error) list" where
  "fetch_errors e symbols =
     concat (map (\<lambda>smb. case klines e smb of Inl err \<Rightarrow> [(smb, err)] | Inr data \<Rightarrow> []) symbols)"

text \<open>The updates of pct\_index.js to its breadth object, for a list of bar indices.\<close>

definition tallies ::
  "date list \<Rightarrow> (nat \<Rightarrow> bool) \<Rightarrow> (nat \<Rightarrow> bool) \<Rightarrow> (nat \<Rightarrow> bool) \<Rightarrow> (nat \<Rightarrow> bool)
     \<Rightarrow> nat list \<Rightarrow> (date \<times> tally) list \<Rightarrow> (date \<times> tally) list" where
  "tallies dates h75 u75 h200 u200 js b =
     fold (\<lambda>i b. AList.update (dates ! i)
                    (tally_step (h75 i) (u75 i) (h200 i) (u200 i) (tally_or_zero b (dates ! i))) b)
       js b"

section \<open>Example environments\<close>

text \<open>
  Concrete answers of the services, used to instantiate the theorems: two tradable USDT
  spot symbols, daily bars with a constant close, the dates of a process whose time
  zone is UTC (days since the epoch to a civil date and back), and responses that arrive
  in the order of the requests unless an example says otherwise.
\<close>

definition usdt_spot :: "symbol \<Rightarrow> symbol_info" where
  "usdt_spot s =
     \<lparr>s_symbol = s, s_status = ''TRADING'', s_isSpotTradingAllowed = True,
      s_quoteAsset = ''USDT''\<rparr>"

definition day_ms :: int where
  "day_ms = 86400000"

definition flat_bars :: "int \<Rightarrow> nat \<Rightarrow> real \<Rightarrow> kline list" where
  "flat_bars t0 n c = map (\<lambda>i. (t0 + int i * day_ms, c)) [0..<n]"

definition pad2 :: "nat \<Rightarrow> string" where
  "pad2 n = [digit (n div 10 mod 10), digit (n mod 10)]"

definition pad4 :: "nat \<Rightarrow> string" where
  "pad4 n =
     [digit (n div 1000 mod 10), digit (n div 100 mod 10), digit (n div 10 mod 10),
      digit (n mod 10)]"

definition civil_from_days :: "int \<Rightarrow> int \<times> int \<times> int" where
  "civil_from_days days =
     (let z = days + 719468;
          era = z div 146097;
          doe = z mod 146097;
          yoe = (doe - doe div 1460 + doe div 36524 - doe div 146096) div 365;
          doy = doe - (365 * yoe + yoe div 4 - yoe div 100);
          mp = (5 * doy + 2) div 153;
          d = doy - (153 * mp + 2) div 5 + 1;
          m = (if mp < 10 then mp + 3 else mp - 9);
          y = yoe + era * 400 + (if m \<le> 2 then 1 else 0)
      in (y, m, d))"

definition utc_date :: "int \<Rightarrow> date" where
  "utc_date ms =
     (case civil_from_days (ms div day_ms) of
        (y, m, d) \<Rightarrow> pad4 (nat y) @ ''-'' @ pad2 (nat m) @ ''-'' @ pad2 (nat d))"

definition days_from_civil :: "int \<Rightarrow> int \<Rightarrow> int \<Rightarrow> int" where
  "days_from_civil y0 m d =
     (let y = (if m \<le> 2 then y0 - 1 else y0);
          era = y div 400;
          yoe = y mod 400;
          doy = (153 * (if m > 2 then m - 3 else m + 9) + 2) div 5 + d - 1;
          doe = yoe * 365 + yoe div 4 - yoe div 100 + doy
      in era * 146097 + doe - 719468)"

definition digit_val :: "char \<Rightarrow> int" where
  "digit_val c = int (of_char c) - 48"

definition is_digit :: "char \<Rightarrow> bool" where
  "is_digit c = (48 \<le> (of_char c :: nat) \<and> (of_char c :: nat) \<le> 57)"

definition parse_date :: "date \<Rightarrow> int option" where
  "parse_date s =
     (if length s = 10 \<and> s ! 4 = CHR ''-'' \<and> s ! 7 = CHR ''-''
         \<and> list_all (\<lambda>i. is_digit (s ! i)) [0, 1, 2, 3, 5, 6, 8, 9]
      then Some (days_from_civil
                   (1000 * digit_val (s ! 0) + 100 * digit_val (s ! 1)
                      + 10 * digit_val (s ! 2) + digit_val (s ! 3))
                   (10 * digit_val (s ! 5) + digit_val (s ! 6))
                   (10 * digit_val (s ! 8) + digit_val (s ! 9)) * day_ms)
      else None)"

definition example_env :: "(symbol \<Rightarrow> error + kline list) \<Rightarrow> env" where
  "example_env ks =
     \<lparr>exchangeInfo = Inr [usdt_spot ''AUSDT'', usdt_spot ''BUSDT''],
      klines = ks, dayjs_format = utc_date, Date_parse = parse_date,
      arrival = (\<lambda>i. 0)\<rparr>"

definition down_env :: env where
  "down_env =
     \<lparr>exchangeInfo = Inl TransportError, klines = (\<lambda>s. Inl TransportError),
      dayjs_format = utc_date, Date_parse = parse_date, arrival = (\<lambda>i. 0)\<rparr>"

text \<open>
  Three daily bars from 2024-01-01; 200 daily bars from 2023-06-01 for one symbol and
  none for the other; and 199 daily bars from 2023-06-01 followed by the bar of
  2023-12-17, sent twice.
\<close>

definition three_days :: "kline list" where
  "three_days = [(1704067200000, 1), (1704153600000, 2), (1704240000000, 3)]"

definition short_env :: env where
  "short_env = example_env (\<lambda>s. Inr three_days)"

definition long_env :: env where
  "long_env =
     example_env (\<lambda>s. if s = ''AUSDT'' then Inr (flat_bars 1685577600000 200 1) else Inr [])"

definition repeated_env :: env where
  "repeated_env =
     example_env (\<lambda>s. Inr (flat_bars 1685577600000 199 1
                              @ [(1702771200000, 1), (1702771200000, 1)]))"

text \<open>
  Two services whose second response arrives first: in one the klines request of the
  first symbol fails and the second symbol has three bars, in the other the first symbol
  has 200 bars and the body for the second symbol is no JSON.
\<close>

definition one_down :: env where
  "one_down =
     (example_env (\<lambda>s. if s = ''AUSDT'' then Inl TransportError else Inr three_days))
       \<lparr>arrival := (\<lambda>i. 1 - i)\<rparr>"

definition one_undecoded :: env where
  "one_undecoded =
     (example_env (\<lambda>s. if s = ''AUSDT'' then Inr (flat_bars 1685577600000 200 1)
                         else Inl DecodeError))
       \<lparr>arrival := (\<lambda>i. 1 - i)\<rparr>"

section \<open>Properties of the indicator engine\<close>

lemma length_ema_rec: "length (ema_rec k prev cs) = length cs"
  by (induction cs arbitrary: prev) (simp_all add: Let_def)

lemma length_EMA_calculate:
  "0 < p \<Longrightarrow> p \<le> length vals \<Longrightarrow> length (EMA_calculate p vals) = length vals - p + 1"
  by (simp add: EMA_calculate_def Let_def length_ema_rec)

lemma ema_rec_nth:
  "i < length cs \<Longrightarrow>
   ema_rec k prev cs ! i =
     cs ! i * k + (if i = 0 then prev else ema_rec k prev cs ! (i - 1)) * (1 - k)"
proof (induction cs arbitrary: prev i)
  case Nil
  then show ?case by simp
next
  case (Cons c cs)
  show ?case
  proof (cases i)
    case 0
    then show ?thesis by (simp add: Let_def)
  next
    case (Suc j)
    with Cons.prems have j: "j < length cs" by simp
    from Cons.IH [OF j, of "c * k + prev * (1 - k)"] Suc show ?thesis
      by (cases j) (simp_all add: Let_def)
  qed
qed

lemma EMA_calculate_nth_0:
  "0 < p \<Longrightarrow> p \<le> length vals \<Longrightarrow>
   EMA_calculate p vals ! 0 = sum_list (take p vals) / real p"
  by (simp add: EMA_calculate_def Let_def)

lemma EMA_calculate_nth_Suc:
  assumes "0 < p" "p + j < length vals"
  shows "EMA_calculate p vals ! Suc j =
    vals ! (p + j) * ema_k p + EMA_calculate p vals ! j * (1 - ema_k p)"
proof -
  let ?seed = "sum_list (take p vals) / real p"
  have j: "j < length (drop p vals)" using assms by simp
  have "EMA_calculate p vals ! Suc j = ema_rec (ema_k p) ?seed (drop p vals) ! j"
    using assms by (simp add: EMA_calculate_def Let_def)
  also have "\<dots> = drop p vals ! j * ema_k p + EMA_calculate p vals ! j * (1 - ema_k p)"
    using ema_rec_nth [OF j, of "ema_k p" ?seed] assms
    by (cases j) (simp_all add: EMA_calculate_def Let_def)
  finally show ?thesis using assms by simp
qed

lemma padEMA_nth:
  "0 < p \<Longrightarrow> padEMA arr p = Inr ema \<Longrightarrow>
   length ema = p - 1 + length arr \<and>
   (\<forall>i. i < p - 1 \<longrightarrow> ema ! i = Null) \<and>
   (\<forall>j. j < length arr \<longrightarrow> ema ! (p - 1 + j) = Num (arr ! j))"
  by (auto simp: padEMA_def nth_append)

text \<open>
  C5. For a period \<open>p \<ge> 1\<close> and at least \<open>p\<close> closes, the padded EMA series has the
  length of the close sequence, is \<^verbatim>\<open>null\<close> at the indices \<open>0..p-2\<close>, holds the mean
  of the first \<open>p\<close> closes at index \<open>p-1\<close>, and from index \<open>p\<close> on satisfies
  \<open>ema[i] = close[i] * k + ema[i-1] * (1-k)\<close> with \<open>k = 2/(p+1)\<close>.
\<close>

theorem padEMA_EMA_aligned:
  assumes p: "1 \<le> p" and n: "p \<le> length closes"
  shows "\<exists>ema. padEMA (EMA_calculate p closes) p = Inr ema
     \<and> length ema = length closes
     \<and> (\<forall>i. i + 1 < p \<longrightarrow> ema ! i = Null)
     \<and> ema ! (p - 1) = Num (sum_list (take p closes) / real p)
     \<and> (\<forall>i. p \<le> i \<and> i < length closes \<longrightarrow>
          (\<exists>prev. ema ! (i - 1) = Num prev
             \<and> ema ! i = Num (closes ! i * (2 / (real p + 1))
                              + prev * (1 - 2 / (real p + 1)))))"
proof -
  let ?arr = "EMA_calculate p closes"
  obtain ema where ema: "padEMA ?arr p = Inr ema"
    using p by (auto simp: padEMA_def)
  have p0: "0 < p" using p by simp
  have la: "length ?arr = length closes - p + 1"
    using p0 n by (rule length_EMA_calculate)
  note P = padEMA_nth [OF p0 ema]
  have len: "length ema = length closes" using P la p n by simp
  have pad: "\<forall>i. i + 1 < p \<longrightarrow> ema ! i = Null" using P by simp
  have at: "ema ! (p - 1 + j) = Num (?arr ! j)" if "j < length ?arr" for j
    using P that by blast
  have seed: "ema ! (p - 1) = Num (sum_list (take p closes) / real p)"
    using at [of 0] la EMA_calculate_nth_0 [OF p0 n] by simp
  have step: "\<exists>prev. ema ! (i - 1) = Num prev
        \<and> ema ! i = Num (closes ! i * (2 / (real p + 1)) + prev * (1 - 2 / (real p + 1)))"
    if i: "p \<le> i" "i < length closes" for i
  proof -
    define j where "j = i - p"
    have ij: "i = p + j" using i by (simp add: j_def)
    have j1: "Suc j < length ?arr" and j0: "j < length ?arr" using la ij i by simp_all
    have a: "ema ! i = Num (?arr ! Suc j)" using at [OF j1] ij p0 by simp
    have b: "ema ! (i - 1) = Num (?arr ! j)" using at [OF j0] ij p0 by simp
    have "p + j < length closes" using ij i by simp
    from EMA_calculate_nth_Suc [OF p0 this] a b ij show ?thesis
      by (simp add: ema_k_def)
  qed
  from ema len pad seed step show ?thesis by blast
qed

theorem padEMA_EMA_aligned_witness:
  "(1::nat) \<le> 2 \<and> 2 \<le> length [1, 3, 5 :: real]
   \<and> padEMA (EMA_calculate 2 [1, 3, 5]) 2 = Inr [Null, Num 2, Num 4]"
  using padEMA_EMA_aligned [of 2 "[1, 3, 5]"]
  by (simp add: padEMA_def EMA_calculate_def ema_k_def Let_def)

lemma length_series:
  "0 < p \<Longrightarrow> p \<le> length closes \<Longrightarrow> length (series p closes) = length closes"
  by (simp add: series_def length_EMA_calculate)

lemma not_null_series:
  assumes "0 < p" "p \<le> length closes" "i < length closes"
  shows "not_null (nth_js (series p closes) i) = (p - 1 \<le> i)"
proof (cases "i < p - 1")
  case True
  then show ?thesis using assms
    by (simp add: nth_js_def length_series) (simp add: series_def nth_append)
next
  case False
  then have "i - (p - 1) < length (EMA_calculate p closes)"
    using assms by (simp add: length_EMA_calculate)
  then show ?thesis using False assms
    by (simp add: nth_js_def length_series) (simp add: series_def nth_append)
qed

lemma filter_upt_ge: "m \<le> n \<Longrightarrow> filter (\<lambda>i. m \<le> i) [0..<n] = [m..<n]"
proof (induction n)
  case 0
  then show ?case by simp
next
  case (Suc n)
  then show ?case by (cases "m = Suc n") auto
qed

lemma filter_not_null_series:
  assumes "0 < p" "p \<le> n" "length closes = n"
  shows "filter (\<lambda>i. not_null (nth_js (series p closes) i)) [0..<n] = [p - 1..<n]"
proof -
  have "filter (\<lambda>i. not_null (nth_js (series p closes) i)) [0..<n]
      = filter (\<lambda>i. p - 1 \<le> i) [0..<n]"
    by (rule filter_cong) (simp_all add: not_null_series assms)
  then show ?thesis using assms by (simp add: filter_upt_ge)
qed

lemma nth_js_series_0:
  assumes "1 < p" "p \<le> length closes"
  shows "nth_js (series p closes) 0 = Null"
proof -
  have "length (series p closes) = length closes" using assms by (simp add: length_series)
  then have "0 < length (series p closes)" using assms by linarith
  moreover have "series p closes ! 0 = Null" using assms by (simp add: series_def nth_append)
  ultimately show ?thesis by (simp add: nth_js_def)
qed

section \<open>The order of the task bodies\<close>

lemma mset_completion_order: "mset (completion_order e symbols) = mset symbols"
proof -
  have "mset (completion_order e symbols) = mset (map snd (enumerate 0 symbols))"
    unfolding completion_order_def by (simp only: mset_map mset_sort)
  then show ?thesis by (simp only: map_snd_enumerate)
qed

lemma set_completion_order: "set (completion_order e symbols) = set symbols"
  using mset_completion_order [of e symbols] by (rule mset_eq_setD)

lemma completion_order_same_rank:
  assumes "\<And>i. arrival e i = c"
  shows "completion_order e symbols = symbols"
proof -
  have "sorted (map (\<lambda>p. arrival e (fst p)) (enumerate 0 symbols))"
    by (simp add: assms sorted_wrt_iff_nth_less)
  then show ?thesis
    by (simp add: completion_order_def sort_key_id_if_sorted map_snd_enumerate)
qed

section \<open>The example environments evaluated\<close>

lemma completion_order_example: "completion_order (example_env ks) symbols = symbols"
  by (rule completion_order_same_rank [where c = 0]) (simp add: example_env_def)

lemma exchangeInfo_example:
  "exchangeInfo (example_env ks) = Inr [usdt_spot ''AUSDT'', usdt_spot ''BUSDT'']"
  by (simp add: example_env_def)

lemma utc_date_examples:
  "utc_date 1704067200000 = ''2024-01-01''"
  "utc_date 1704153600000 = ''2024-01-02''"
  "utc_date 1704240000000 = ''2024-01-03''"
  "utc_date 1685577600000 = ''2023-06-01''"
  "utc_date 1702771200000 = ''2023-12-17''"
  by code_simp+

lemma parse_date_examples:
  "parse_date ''2024-01-01'' = Some 1704067200000"
  "parse_date ''2024-01-02'' = Some 1704153600000"
  "parse_date ''2024-01-03'' = Some 1704240000000"
  by code_simp+

lemma length_flat_bars: "length (flat_bars t0 n c) = n"
  by (simp add: flat_bars_def)

lemma nth_flat_bars: "i < n \<Longrightarrow> flat_bars t0 n c ! i = (t0 + int i * day_ms, c)"
  by (simp add: flat_bars_def)

lemma filter_flat_bars: "lo \<le> t0 \<Longrightarrow> filter (\<lambda>bar. lo \<le> fst bar) (flat_bars t0 n c) = flat_bars t0 n c"
  by (rule filter_True) (auto simp: flat_bars_def day_ms_def)

lemma exchangeInfo_long:
  "exchangeInfo long_env = Inr [usdt_spot ''AUSDT'', usdt_spot ''BUSDT'']"
  unfolding long_env_def by (rule exchangeInfo_example)

lemma completion_order_long: "completion_order long_env symbols = symbols"
  unfolding long_env_def by (rule completion_order_example)

lemma fetch_long_final:
  "fetchDailyKlines_final long_env ''AUSDT'' = Inr (flat_bars 1685577600000 200 1)"
  by (simp add: fetchDailyKlines_final_def long_env_def example_env_def cutoff_final_def
        filter_flat_bars)

lemma fetch_long_ema100:
  "fetchKlines_ema100 long_env ''AUSDT'' = Inr (flat_bars 1685577600000 200 1)"
  by (simp add: fetchKlines_ema100_def axios_get_def long_env_def example_env_def
        START_MS_def filter_flat_bars)

lemma fetch_long_pct:
  "fetchKlines_pct long_env ''AUSDT'' = Inr (flat_bars 1685577600000 200 1)"
  by (simp add: fetchKlines_pct_def long_env_def example_env_def cutoff_pct_def
        filter_flat_bars)

lemma universe_example: "universe [usdt_spot ''AUSDT'', usdt_spot ''BUSDT''] = [''AUSDT'', ''BUSDT'']"
  by (simp add: universe_def usdt_spot_def QUOTE_def)

lemma candles_three_days:
  "fetchDailyKlines_hhll (example_env (\<lambda>s. Inr three_days)) smb =
     Inr [(''2024-01-01'', 1), (''2024-01-02'', 2), (''2024-01-03'', 3)]"
  by (simp add: fetchDailyKlines_hhll_def example_env_def three_days_def utc_date_examples
        parse_date_examples cutoff_hhll_def)

lemma dates_three_days:
  "dates_hhll (example_env (\<lambda>s. Inr three_days)) smb = [''2024-01-01'', ''2024-01-02'', ''2024-01-03'']"
  by (simp add: dates_hhll_def flagHHLLforSymbol_def candles_three_days flag_loop_def
        flag_step_def flag_init_def LOOKBACK_DAYS_def Let_def)

lemma fetch_repeated_final:
  "fetchDailyKlines_final repeated_env ''AUSDT'' =
     Inr (flat_bars 1685577600000 199 1 @ [(1702771200000, 1), (1702771200000, 1)])"
  by (simp add: fetchDailyKlines_final_def repeated_env_def example_env_def cutoff_final_def
        filter_flat_bars)

lemma fetch_short:
  "fetchDailyKlines_final short_env smb = Inr three_days"
  "fetchKlines_pct short_env smb = Inr three_days"
  "fetchDailyKlines_hhll short_env smb =
     Inr [(''2024-01-01'', 1), (''2024-01-02'', 2), (''2024-01-03'', 3)]"
  by (simp_all add: fetchDailyKlines_final_def fetchKlines_pct_def fetchDailyKlines_hhll_def
        short_env_def example_env_def three_days_def cutoff_final_def cutoff_pct_def
        cutoff_hhll_def utc_date_examples parse_date_examples)

lemma fetch_long_other: "fetchKlines_pct long_env ''BUSDT'' = Inr []"
  by (simp add: fetchKlines_pct_def long_env_def example_env_def)

section \<open>The loop of final\_index.js as a list of updates\<close>

lemma fold_bar_step_final:
  "fold (bar_step_final smb closes dates e50 e200) js st =
     st\<lparr>breadth := fold (\<lambda>i. bump (dates ! i) (ok_final closes e50 e200 i)) js (breadth st),
        rowsSym := rowsSym st @ map (mk_row_final smb closes dates e50 e200) js\<rparr>"
  by (induction js arbitrary: st) (simp_all add: bar_step_final_def)

lemma fold_bump_index:
  "\<forall>i\<in>set js. i < length kl \<Longrightarrow>
   fold (\<lambda>i. bump (map f kl ! i) (g i)) js b = bumps (map (\<lambda>i. (f (kl ! i), g i)) js) b"
  by (induction js arbitrary: b) (simp_all add: bumps_def)

lemma padEMA_series: "0 < p \<Longrightarrow> padEMA (EMA_calculate p closes) p = Inr (series p closes)"
  by (simp add: padEMA_def series_def)

lemma processSymbol_final_breadth:
  "breadth (processSymbol_final e smb st) = bumps (contribs_final e smb) (breadth st)"
  by (simp add: processSymbol_final_def contribs_final_def padEMA_series Let_def
        fold_bar_step_final fold_bump_index bumps_def split: sum.splits)

lemma processSymbol_final_rows:
  "rowsSym (processSymbol_final e smb st) = rowsSym st @ rows_final e smb"
  by (simp add: processSymbol_final_def rows_final_def padEMA_series Let_def
        fold_bar_step_final split: sum.splits)

lemma processSymbol_final_requests:
  "requests (processSymbol_final e smb st) = requests st @ [smb]"
  by (simp add: processSymbol_final_def padEMA_series Let_def
        fold_bar_step_final split: sum.splits)

lemma processSymbol_final_skipped:
  "skipped (processSymbol_final e smb st) =
     skipped st @ (case fetchDailyKlines_final e smb of Inl err \<Rightarrow> [(smb, err)] | Inr kl \<Rightarrow> [])"
  by (simp add: processSymbol_final_def padEMA_series Let_def
        fold_bar_step_final split: sum.splits)

lemma bumps_append: "bumps (cs @ ds) b = bumps ds (bumps cs b)"
  by (simp add: bumps_def)

lemma fold_processSymbol_final_breadth:
  "breadth (fold (processSymbol_final e) syms st) =
     bumps (concat (map (contribs_final e) syms)) (breadth st)"
  by (induction syms arbitrary: st) (simp_all add: processSymbol_final_breadth bumps_append bumps_def)

lemma fold_processSymbol_final_rows:
  "rowsSym (fold (processSymbol_final e) syms st) =
     rowsSym st @ concat (map (rows_final e) syms)"
  by (induction syms arbitrary: st) (simp_all add: processSymbol_final_rows)

lemma fold_bar_step_ema100:
  "fold (bar_step_ema100 smb closes dates e100 e200) js st =
     st\<lparr>perSymbolRows := perSymbolRows st @ map (mk_row_ema100 smb closes dates e100 e200) js,
        breadth_h := fold (\<lambda>i. bump (dates ! i) (above_ema100 closes e100 e200 i))
                       (filter (\<lambda>i. not_null (nth_js e200 i)) js) (breadth_h st)\<rparr>"
  by (induction js arbitrary: st) (simp_all add: bar_step_ema100_def Let_def)

lemma processSymbol_final_enough:
  assumes "fetchDailyKlines_final e smb = Inr kl" "200 \<le> length kl"
  shows "rowsSym (processSymbol_final e smb st) =
      rowsSym st @ map (mk_row_final smb (map snd kl) (map (\<lambda>x. dayjs_format e (fst x)) kl)
                          (series 50 (map snd kl)) (series 200 (map snd kl))) [0..<length kl]"
  using assms by (simp add: processSymbol_final_rows rows_final_def)

lemma processSymbol_ema100_enough:
  assumes "fetchKlines_ema100 e smb = Inr kl" "200 \<le> length kl"
  shows "processSymbol_ema100 e smb st =
      st\<lparr>requests_h := requests_h st @ [smb],
         perSymbolRows := perSymbolRows st @
            map (mk_row_ema100 smb (map snd kl) (map (\<lambda>k. dayjs_format e (fst k)) kl)
                   (series 100 (map snd kl)) (series 200 (map snd kl))) [0..<length kl],
         breadth_h := bumps (map (\<lambda>i. (dayjs_format e (fst (kl ! i)),
                        above_ema100 (map snd kl) (series 100 (map snd kl))
                          (series 200 (map snd kl)) i)) [199..<length kl]) (breadth_h st)\<rparr>"
proof -
  have f: "filter (\<lambda>i. not_null (nth_js (series 200 (map snd kl)) i)) [0..<length kl]
      = [199..<length kl]"
    using filter_not_null_series [of 200 "length kl" "map snd kl"] assms by simp
  have g: "fold (\<lambda>i. bump (map (\<lambda>k. dayjs_format e (fst k)) kl ! i) (h i)) [199..<length kl] b
      = bumps (map (\<lambda>i. (dayjs_format e (fst (kl ! i)), h i)) [199..<length kl]) b" for h b
    by (rule fold_bump_index) simp
  show ?thesis using assms
    by (simp add: processSymbol_ema100_def Let_def padEMA_series fold_bar_step_ema100 f g)
qed

lemma processSymbol_pct_short:
  "fetchKlines_pct e smb = Inr kl \<Longrightarrow> length kl < 200 \<Longrightarrow>
   processSymbol_pct e smb st = st\<lparr>requests_p := requests_p st @ [smb]\<rparr>"
  by (simp add: processSymbol_pct_def Let_def)

lemma processSymbol_final_short:
  "fetchDailyKlines_final e smb = Inr kl \<Longrightarrow> length kl < 200 \<Longrightarrow>
   processSymbol_final e smb st = st\<lparr>requests := requests st @ [smb]\<rparr>"
  by (simp add: processSymbol_final_def Let_def)

section \<open>Counting in the breadth object\<close>

lemma bump_keys: "fst ` set (bump d ok b) = insert d (fst ` set b)"
  by (simp add: bump_def Let_def AList.dom_update)

lemma bump_distinct: "distinct (map fst b) \<Longrightarrow> distinct (map fst (bump d ok b))"
  by (simp add: bump_def Let_def AList.distinct_update)

lemma counts_or_zero_bump:
  "counts_or_zero (bump d ok b) d' =
     (if d' = d
      then (if ok then (counts_or_zero b d)\<lparr>pos := pos (counts_or_zero b d) + 1\<rparr>
            else (counts_or_zero b d)\<lparr>neg := neg (counts_or_zero b d) + 1\<rparr>)
      else counts_or_zero b d')"
  by (simp add: bump_def Let_def counts_or_zero_def AList.update_conv')

lemma bumps_keys: "fst ` set (bumps cs b) = fst ` set cs \<union> fst ` set b"
  by (induction cs arbitrary: b) (auto simp: bumps_def bump_keys)

lemma bumps_distinct: "distinct (map fst b) \<Longrightarrow> distinct (map fst (bumps cs b))"
  by (induction cs arbitrary: b) (simp_all add: bumps_def bump_distinct)

lemma bumps_pos:
  "pos (counts_or_zero (bumps cs b) d) = pos (counts_or_zero b d) + count (mset cs) (d, True)"
  by (induction cs arbitrary: b) (auto simp: bumps_def counts_or_zero_bump)

lemma bumps_neg:
  "neg (counts_or_zero (bumps cs b) d) = neg (counts_or_zero b d) + count (mset cs) (d, False)"
  by (induction cs arbitrary: b) (auto simp: bumps_def counts_or_zero_bump)

lemma breadth_record_cong:
  "pos (counts_or_zero b d) = pos (counts_or_zero b' d) \<Longrightarrow>
   neg (counts_or_zero b d) = neg (counts_or_zero b' d) \<Longrightarrow>
   breadth_record b d = breadth_record b' d"
  by (simp add: breadth_record_def Let_def)

lemma breadth_record_7_of_10:
  "breadth_record [(d, \<lparr>pos = 7, neg = 3\<rparr>)] d =
     \<lparr>br_date = d, br_positive = 7, br_negative = 3,
      br_pos_pct = ''70.00'', br_neg_pct = ''30.00''\<rparr>"
  by (simp add: breadth_record_def counts_or_zero_def js_div_def hundredths_def digit_def
        Let_def)

lemma sort_keys_eq:
  fixes xs ys :: "'a::linorder list"
  assumes "distinct xs" "distinct ys" "set xs = set ys"
  shows "sort xs = sort ys"
  by (rule sorted_distinct_set_unique) (simp_all add: assms)

lemma breadth_records_mset:
  assumes "mset cs = mset cs'"
  shows "breadth_records (bumps cs []) = breadth_records (bumps cs' [])"
proof -
  have s: "set cs = set cs'" using assms by (rule mset_eq_setD)
  have k: "sort (map fst (bumps cs [])) = sort (map fst (bumps cs' []))"
    by (rule sort_keys_eq) (simp_all add: bumps_distinct bumps_keys s)
  have "breadth_record (bumps cs []) d = breadth_record (bumps cs' []) d" for d
    by (rule breadth_record_cong) (simp_all add: bumps_pos bumps_neg assms)
  then show ?thesis by (simp add: breadth_records_def k)
qed

lemma mset_concat_map_perm:
  assumes "mset xs = mset ys"
  shows "mset (concat (map f xs)) = mset (concat (map f ys))"
proof -
  have "mset (concat (map f zs)) = (\<Sum>x\<in>#mset zs. mset (f x))" for zs :: "'a list"
    by (induction zs) simp_all
  then show ?thesis using assms by simp
qed

lemma count_pairs_filter:
  "count (mset cs) (d, True) + count (mset cs) (d, False) = length (filter (\<lambda>c. fst c = d) cs)"
  by (induction cs) auto

lemma bumps_total:
  "pos (counts_or_zero (bumps cs b) d) + neg (counts_or_zero (bumps cs b) d) =
     pos (counts_or_zero b d) + neg (counts_or_zero b d) + length (filter (\<lambda>c. fst c = d) cs)"
  using count_pairs_filter [of cs d] by (simp add: bumps_pos bumps_neg)

lemma contribs_final_enough:
  assumes "fetchDailyKlines_final e smb = Inr kl" "200 \<le> length kl"
  shows "map fst (contribs_final e smb) = map (\<lambda>k. dayjs_format e (fst k)) kl"
proof -
  have "map (\<lambda>i. dayjs_format e (fst (kl ! i))) [0..<length kl]
      = map (\<lambda>k. dayjs_format e (fst k)) kl"
    by (rule nth_equalityI) simp_all
  then show ?thesis using assms by (simp add: contribs_final_def comp_def)
qed

lemma length_filter_map_fst:
  "length (filter (\<lambda>c. fst c = d) cs) = length (filter (\<lambda>x. x = d) (map fst cs))"
  by (induction cs) simp_all

section \<open>Rows and contributions in the warm-up region\<close>

text \<open>
  C1, as stated, fails: final\_index.js (EMA-50/200) pushes a row for the first of 200
  bars, where both EMAs are still \<^verbatim>\<open>null\<close>; the signal of that row is 1, because
  \<^verbatim>\<open>close > null\<close> compares the close with 0.
\<close>

theorem warmup_row_counterexample:
  "rowsSym (processSymbol_final long_env ''AUSDT'' init_final) ! 0 =
     \<lparr>rf_symbol = ''AUSDT'', rf_date = ''2023-06-01'', rf_close = 1,
      rf_ema50 = Null, rf_ema200 = Null, rf_signal = 1\<rparr>"
proof -
  let ?kl = "flat_bars 1685577600000 200 1"
  have n: "200 \<le> length ?kl" by (simp add: length_flat_bars)
  have d: "dayjs_format long_env (fst (?kl ! 0)) = ''2023-06-01''"
    by (simp add: nth_flat_bars long_env_def example_env_def utc_date_examples)
  have c: "map snd ?kl ! 0 = 1" by (simp add: length_flat_bars nth_flat_bars)
  have "rowsSym (processSymbol_final long_env ''AUSDT'' init_final) ! 0 =
      mk_row_final ''AUSDT'' (map snd ?kl) (map (\<lambda>x. dayjs_format long_env (fst x)) ?kl)
         (series 50 (map snd ?kl)) (series 200 (map snd ?kl)) 0"
    using processSymbol_final_enough [OF fetch_long_final n, of init_final]
    by (simp add: init_final_def length_flat_bars nth_map_upt)
  then show ?thesis
    using d c by (simp add: mk_row_final_def ok_final_def nth_js_series_0 length_flat_bars)
qed

text \<open>
  C1, amended. For an instrument with at least 200 bars a row is pushed for every bar,
  the bars of the warm-up region included, with \<^verbatim>\<open>null\<close> for an EMA that does not exist
  yet (EMA-50/200 and EMA-100/200 loops). In the EMA-100/200 loop a bar is counted in
  the breadth of its date only if both EMAs exist at its index, that is from index 199
  on.
\<close>

theorem rows_for_every_bar:
  "(fetchDailyKlines_final e smb = Inr kl \<and> 200 \<le> length kl \<longrightarrow>
      (let closes = map snd kl; dates = map (\<lambda>x. dayjs_format e (fst x)) kl
       in rowsSym (processSymbol_final e smb st) =
            rowsSym st @ map (mk_row_final smb closes dates (series 50 closes) (series 200 closes))
                           [0..<length kl]))
 \<and> (fetchKlines_ema100 e smb = Inr kl' \<and> 200 \<le> length kl' \<longrightarrow>
      (let closes = map snd kl'; dates = map (\<lambda>k. dayjs_format e (fst k)) kl';
           ema100 = series 100 closes; ema200 = series 200 closes;
           after = processSymbol_ema100 e smb sth
       in perSymbolRows after =
            perSymbolRows sth @ map (mk_row_ema100 smb closes dates ema100 ema200) [0..<length kl']
        \<and> breadth_h after =
            bumps (map (\<lambda>i. (dates ! i, above_ema100 closes ema100 ema200 i)) [199..<length kl'])
              (breadth_h sth)
        \<and> (\<forall>i<length kl'.
              (199 \<le> i) = (not_null (nth_js ema100 i) \<and> not_null (nth_js ema200 i)))))"
proof -
  have a: "(199 \<le> i) = (not_null (nth_js (series 100 (map snd kl')) i)
                       \<and> not_null (nth_js (series 200 (map snd kl')) i))"
    if "200 \<le> length kl'" "i < length kl'" for i
    using that not_null_series [of 100 "map snd kl'" i] not_null_series [of 200 "map snd kl'" i]
    by auto
  have b: "map (\<lambda>i. (map (\<lambda>k. dayjs_format e (fst k)) kl' ! i, h i)) [199..<length kl']
      = map (\<lambda>i. (dayjs_format e (fst (kl' ! i)), h i)) [199..<length kl']" for h
    by simp
  show ?thesis
    unfolding Let_def
    by (auto simp: processSymbol_final_enough processSymbol_ema100_enough a b)
qed

theorem rows_for_every_bar_witness:
  "fetchDailyKlines_final long_env ''AUSDT'' = Inr (flat_bars 1685577600000 200 1)
   \<and> fetchKlines_ema100 long_env ''AUSDT'' = Inr (flat_bars 1685577600000 200 1)
   \<and> 200 \<le> length (flat_bars 1685577600000 200 1)
   \<and> length (rowsSym (processSymbol_final long_env ''AUSDT'' init_final)) = 200
   \<and> length (perSymbolRows (processSymbol_ema100 long_env ''AUSDT'' init_ema100)) = 200
   \<and> map fst (breadth_h (processSymbol_ema100 long_env ''AUSDT'' init_ema100)) = [''2023-12-17'']"
proof -
  let ?kl = "flat_bars 1685577600000 200 1"
  have n: "200 \<le> length ?kl" by (simp add: length_flat_bars)
  have u: "[199..<200] = [199::nat]" by (simp add: upt_rec)
  have d: "dayjs_format long_env (fst (?kl ! 199)) = ''2023-12-17''"
    by (simp add: nth_flat_bars long_env_def example_env_def day_ms_def utc_date_examples)
  note T = rows_for_every_bar [of long_env "''AUSDT''" ?kl init_final ?kl init_ema100]
  from T fetch_long_final fetch_long_ema100 n d show ?thesis
    by (simp add: Let_def init_final_def init_ema100_def length_flat_bars u bumps_def
          bump_def)
qed

section \<open>The percentages of pct\_index.js\<close>

lemma fold_bar_step_pct:
  "fold (bar_step_pct smb closes dates e75 e200) js st =
     st\<lparr>breadth_p := tallies dates (\<lambda>i. not_null (nth_js e75 i)) (above_pct closes e75)
                        (\<lambda>i. not_null (nth_js e200 i)) (above_pct closes e200) js (breadth_p st),
        rowsSym_p := rowsSym_p st @ map (mk_row_pct smb closes dates e75 e200) js\<rparr>"
  by (induction js arbitrary: st) (simp_all add: bar_step_pct_def tallies_def Let_def)

lemma tallies_keys:
  "fst ` set (tallies dates h75 u75 h200 u200 js b) = fst ` set b \<union> (\<lambda>i. dates ! i) ` set js"
  by (induction js arbitrary: b) (auto simp: tallies_def AList.dom_update)

lemma tally_or_zero_update:
  "tally_or_zero (AList.update k v b) d = (if d = k then v else tally_or_zero b d)"
  by (simp add: tally_or_zero_def AList.update_conv')

lemma tallies_t200:
  "t200 (tally_or_zero (tallies dates h75 u75 h200 u200 js b) d) =
     t200 (tally_or_zero b d) + length (filter (\<lambda>i. dates ! i = d \<and> h200 i) js)"
  by (induction js arbitrary: b)
    (auto simp: tallies_def tally_or_zero_update tally_step_def Let_def)

lemma tallies_a200:
  "a200 (tally_or_zero (tallies dates h75 u75 h200 u200 js b) d) =
     a200 (tally_or_zero b d) + length (filter (\<lambda>i. dates ! i = d \<and> h200 i \<and> u200 i) js)"
  by (induction js arbitrary: b)
    (auto simp: tallies_def tally_or_zero_update tally_step_def Let_def)

lemma processSymbol_pct_enough:
  assumes "fetchKlines_pct e smb = Inr kl" "200 \<le> length kl"
  shows "breadth_p (processSymbol_pct e smb st) =
      tallies (map (\<lambda>x. dayjs_format e (fst x)) kl)
        (\<lambda>i. not_null (nth_js (series 75 (map snd kl)) i))
        (above_pct (map snd kl) (series 75 (map snd kl)))
        (\<lambda>i. not_null (nth_js (series 200 (map snd kl)) i))
        (above_pct (map snd kl) (series 200 (map snd kl)))
        [0..<length kl] (breadth_p st)"
  using assms by (simp add: processSymbol_pct_def Let_def padEMA_series fold_bar_step_pct)

text \<open>
  C2. The claim wants a date without any instrument of sufficient history to be left
  out of the output, and no row to hold \<^verbatim>\<open>NaN\<close>. pct\_index.js creates the entry of a
  date for every bar and divides by a denominator that is still zero: for one
  instrument with 200 daily bars from 2023-06-01, the file that the run writes has a row
  for 2023-06-01 whose \<^verbatim>\<open>pct_above_200\<close> is \<^verbatim>\<open>NaN\<close>.
\<close>

theorem pct_warmup_NaN:
  "breadth_pct_csv (main_pct long_env)
     = Some (daily (breadth_p (processSymbol_pct long_env ''AUSDT'' init_pct)))
   \<and> daily_record (breadth_p (processSymbol_pct long_env ''AUSDT'' init_pct)) ''2023-06-01''
       \<in> set (daily (breadth_p (processSymbol_pct long_env ''AUSDT'' init_pct)))
   \<and> pct_above_200
        (daily_record (breadth_p (processSymbol_pct long_env ''AUSDT'' init_pct)) ''2023-06-01'')
       = ''NaN''"
proof -
  let ?kl = "flat_bars 1685577600000 200 1"
  let ?dates = "map (\<lambda>x. dayjs_format long_env (fst x)) ?kl"
  let ?b = "breadth_p (processSymbol_pct long_env ''AUSDT'' init_pct)"
  have n: "200 \<le> length ?kl" by (simp add: length_flat_bars)
  note B = processSymbol_pct_enough [OF fetch_long_pct n, of init_pct]
  have d0: "?dates ! 0 = ''2023-06-01''"
    by (simp add: length_flat_bars nth_flat_bars long_env_def example_env_def utc_date_examples)
  have d199: "?dates ! 199 = ''2023-12-17''"
    by (simp add: length_flat_bars nth_flat_bars long_env_def example_env_def day_ms_def
          utc_date_examples)
  have late: "not_null (nth_js (series 200 (map snd ?kl)) i) = (i = 199)" if "i < 200" for i
    using not_null_series [of 200 "map snd ?kl" i] that by (auto simp: length_flat_bars)
  have none: "filter (\<lambda>i. ?dates ! i = ''2023-06-01'' \<and> P i
                 \<and> not_null (nth_js (series 200 (map snd ?kl)) i)) [0..<200] = []" for P
    using late d199 by (auto simp: filter_empty_conv)
  have t: "t200 (tally_or_zero ?b ''2023-06-01'') = 0"
    unfolding B tallies_t200 using none [of "\<lambda>i. True"]
    by (simp add: init_pct_def tally_or_zero_def length_flat_bars)
  have a: "a200 (tally_or_zero ?b ''2023-06-01'') = 0"
    unfolding B tallies_a200
    using none [of "above_pct (map snd ?kl) (series 200 (map snd ?kl))"]
    by (simp add: init_pct_def tally_or_zero_def length_flat_bars conj_ac)
  have k: "''2023-06-01'' \<in> fst ` set ?b"
    unfolding B tallies_keys using d0 by (auto simp: length_flat_bars intro!: image_eqI [where x = 0])
  have main: "breadth_pct_csv (main_pct long_env) = Some (daily ?b)"
    using processSymbol_pct_short [OF fetch_long_other, of "processSymbol_pct long_env ''AUSDT'' init_pct"]
    by (simp add: main_pct_def run_pct_def Let_def universe_example exchangeInfo_long
          completion_order_long)
  have row: "daily_record ?b ''2023-06-01'' \<in> set (daily ?b)"
    using k by (simp add: daily_def)
  have nan: "pct_above_200 (daily_record ?b ''2023-06-01'') = ''NaN''"
    using t a by (simp add: daily_record_def Let_def js_div_def)
  from main row nan show ?thesis by blast
qed

section \<open>The rolling window of hh\_llindex.js\<close>

lemma window90_flag_loop:
  "0 < w \<Longrightarrow> window90 (flag_loop w cs) = drop (length cs - w) (map snd cs)"
proof (induction cs rule: rev_induct)
  case Nil
  then show ?case by (simp add: flag_loop_def flag_init_def)
next
  case (snoc x xs)
  then have win: "window90 (flag_loop w xs) = drop (length xs - w) (map snd xs)" by simp
  show ?case
  proof (cases "length xs < w")
    case True
    then show ?thesis using win
      by (simp add: flag_loop_def flag_step_def Let_def)
  next
    case False
    then have "Suc (length xs) - w = Suc (length xs - w)" by simp
    then show ?thesis using win False snoc.prems
      by (simp add: flag_loop_def flag_step_def Let_def drop_Suc tl_drop)
  qed
qed

lemma Math_max_Max:
  assumes "xs \<noteq> []"
  shows "gt_bound c (Math_max xs) = (Max (set xs) < c)"
proof -
  obtain a as where xs: "xs = a # as" using assms by (cases xs) auto
  have "fold max as a = Max (set (a # as))" by (simp only: Max.set_eq_fold)
  then show ?thesis by (simp only: xs Math_max.simps gt_bound.simps)
qed

lemma Math_min_Min:
  assumes "xs \<noteq> []"
  shows "lt_bound c (Math_min xs) = (c < Min (set xs))"
proof -
  obtain a as where xs: "xs = a # as" using assms by (cases xs) auto
  have "fold min as a = Min (set (a # as))" by (simp only: Min.set_eq_fold)
  then show ?thesis by (simp only: xs Math_min.simps lt_bound.simps)
qed

lemma flag_loop_snoc_hh:
  assumes "0 < w"
  shows "map_of (hh_flags (flag_loop w (xs @ [x]))) (fst x) =
     Some (w \<le> length xs \<and> Max (set (take w (drop (length xs - w) (map snd xs)))) < snd x)"
proof (cases "length xs < w")
  case True
  then show ?thesis
    using window90_flag_loop [OF assms, of xs]
    by (simp add: flag_loop_def flag_step_def Let_def AList.update_conv')
next
  case False
  then have "drop (length xs - w) (map snd xs) \<noteq> []" using assms by simp
  moreover have "take w (drop (length xs - w) (map snd xs)) = drop (length xs - w) (map snd xs)"
    using False by simp
  ultimately show ?thesis
    using window90_flag_loop [OF assms, of xs] False
    by (simp add: flag_loop_def flag_step_def Let_def AList.update_conv' Math_max_Max)
qed

lemma flag_loop_snoc_ll:
  assumes "0 < w"
  shows "map_of (ll_flags (flag_loop w (xs @ [x]))) (fst x) =
     Some (w \<le> length xs \<and> snd x < Min (set (take w (drop (length xs - w) (map snd xs)))))"
proof (cases "length xs < w")
  case True
  then show ?thesis
    using window90_flag_loop [OF assms, of xs]
    by (simp add: flag_loop_def flag_step_def Let_def AList.update_conv')
next
  case False
  then have "drop (length xs - w) (map snd xs) \<noteq> []" using assms by simp
  moreover have "take w (drop (length xs - w) (map snd xs)) = drop (length xs - w) (map snd xs)"
    using False by simp
  ultimately show ?thesis
    using window90_flag_loop [OF assms, of xs] False
    by (simp add: flag_loop_def flag_step_def Let_def AList.update_conv' Math_min_Min)
qed

lemma flag_step_other:
  "d \<noteq> fst c \<Longrightarrow>
   map_of (hh_flags (flag_step w c st)) d = map_of (hh_flags st) d \<and>
   map_of (ll_flags (flag_step w c st)) d = map_of (ll_flags st) d"
  by (simp add: flag_step_def Let_def AList.update_conv')

lemma fold_flag_step_other:
  "d \<notin> fst ` set cs \<Longrightarrow>
   map_of (hh_flags (fold (flag_step w) cs st)) d = map_of (hh_flags st) d \<and>
   map_of (ll_flags (fold (flag_step w) cs st)) d = map_of (ll_flags st) d"
  by (induction cs arbitrary: st) (simp_all add: flag_step_other)

lemma take_Suc_slice:
  "i < length cs \<Longrightarrow> w \<le> i \<Longrightarrow>
   take w (drop (i - w) (map snd (take i cs))) = take w (drop (i - w) (map snd cs))"
proof -
  assume "i < length cs" "w \<le> i"
  have "map snd (take i cs) = take i (map snd cs)" by (simp add: take_map)
  then have "drop (i - w) (map snd (take i cs)) = take (i - (i - w)) (drop (i - w) (map snd cs))"
    by (simp only: drop_take)
  moreover have "i - (i - w) = w" using \<open>w \<le> i\<close> by simp
  ultimately show ?thesis by simp
qed

text \<open>
  C4. For a window \<open>w > 0\<close> and every index \<open>i\<close> of the candles, the flags that the
  loop assigns for candle \<open>i\<close> are false when \<open>i < w\<close>; for \<open>i \<ge> w\<close> the higher-high
  flag is true exactly when \<open>close[i]\<close> exceeds the maximum of \<open>close[i-w..i-1]\<close>, and
  the lower-low flag exactly when it is below the minimum of the same closes, so
  \<open>close[i]\<close> is never a member of its own window. The flags are stored under the date
  of the candle: the returned objects hold these values for candle \<open>i\<close> whenever no later
  candle has the same date.
\<close>

theorem flagHHLL_rolling_extrema:
  assumes w: "0 < w" and i: "i < length candles"
  shows "(let closes = map snd candles;
              window = take w (drop (i - w) closes);
              assigned = flag_loop w (take (Suc i) candles);
              returned = flag_loop w candles;
              date = fst (candles ! i);
              hh = (w \<le> i \<and> Max (set window) < closes ! i);
              ll = (w \<le> i \<and> closes ! i < Min (set window))
          in map_of (hh_flags assigned) date = Some hh
           \<and> map_of (ll_flags assigned) date = Some ll
           \<and> ((\<forall>j. i < j \<and> j < length candles \<longrightarrow> fst (candles ! j) \<noteq> date) \<longrightarrow>
                map_of (hh_flags returned) date = Some hh
              \<and> map_of (ll_flags returned) date = Some ll))"
proof -
  let ?pre = "take i candles" and ?x = "candles ! i" and ?post = "drop (Suc i) candles"
  have split: "take (Suc i) candles = ?pre @ [?x]"
    using i by (simp add: take_Suc_conv_app_nth)
  have len: "length ?pre = i" using i by simp
  have win: "w \<le> i \<Longrightarrow>
      take w (drop (i - w) (map snd ?pre)) = take w (drop (i - w) (map snd candles))"
    using i by (rule take_Suc_slice)
  have a1: "map_of (hh_flags (flag_loop w (take (Suc i) candles))) (fst ?x) =
      Some (w \<le> i \<and> Max (set (take w (drop (i - w) (map snd candles)))) < snd ?x)"
  proof -
    have "map_of (hh_flags (flag_loop w (?pre @ [?x]))) (fst ?x) =
       Some (w \<le> length ?pre
          \<and> Max (set (take w (drop (length ?pre - w) (map snd ?pre)))) < snd ?x)"
      using w by (rule flag_loop_snoc_hh)
    then show ?thesis unfolding len split [symmetric] using win by (cases "w \<le> i") simp_all
  qed
  have a2: "map_of (ll_flags (flag_loop w (take (Suc i) candles))) (fst ?x) =
      Some (w \<le> i \<and> snd ?x < Min (set (take w (drop (i - w) (map snd candles)))))"
  proof -
    have "map_of (ll_flags (flag_loop w (?pre @ [?x]))) (fst ?x) =
       Some (w \<le> length ?pre
          \<and> snd ?x < Min (set (take w (drop (length ?pre - w) (map snd ?pre)))))"
      using w by (rule flag_loop_snoc_ll)
    then show ?thesis unfolding len split [symmetric] using win by (cases "w \<le> i") simp_all
  qed
  have whole: "flag_loop w candles = fold (flag_step w) ?post (flag_loop w (take (Suc i) candles))"
  proof -
    have "candles = take (Suc i) candles @ ?post" by simp
    then have "flag_loop w candles = fold (flag_step w) (take (Suc i) candles @ ?post) flag_init"
      unfolding flag_loop_def by simp
    then show ?thesis unfolding flag_loop_def by (simp only: fold_append comp_apply)
  qed
  have b: "map_of (hh_flags (flag_loop w candles)) (fst ?x)
             = map_of (hh_flags (flag_loop w (take (Suc i) candles))) (fst ?x)
         \<and> map_of (ll_flags (flag_loop w candles)) (fst ?x)
             = map_of (ll_flags (flag_loop w (take (Suc i) candles))) (fst ?x)"
    if later: "\<forall>j. i < j \<and> j < length candles \<longrightarrow> fst (candles ! j) \<noteq> fst ?x"
  proof -
    have "fst ?x \<notin> fst ` set ?post"
    proof
      assume "fst ?x \<in> fst ` set ?post"
      then obtain c where c: "c \<in> set ?post" "fst c = fst ?x" by auto
      then obtain k where k: "k < length ?post" "?post ! k = c"
        by (auto simp: in_set_conv_nth)
      then have "candles ! (Suc i + k) = c" "Suc i + k < length candles" by simp_all
      with later c show False by (metis less_add_Suc1 add_Suc)
    qed
    from fold_flag_step_other [OF this] whole show ?thesis by simp
  qed
  have c: "snd ?x = map snd candles ! i" using i by simp
  show ?thesis
    unfolding Let_def using a1 a2 b c by simp
qed

theorem flagHHLL_rolling_extrema_witness:
  "(0::nat) < 2
   \<and> (3::nat) < length [(''d1'', 1), (''d2'', 2), (''d3'', 3), (''d4'', 4), (''d5'', 0 :: real)]
   \<and> map_of (hh_flags (flag_loop 2
          [(''d1'', 1), (''d2'', 2), (''d3'', 3), (''d4'', 4), (''d5'', 0)])) ''d4'' = Some True
   \<and> map_of (ll_flags (flag_loop 2
          [(''d1'', 1), (''d2'', 2), (''d3'', 3), (''d4'', 4), (''d5'', 0)])) ''d4'' = Some False"
  using flagHHLL_rolling_extrema
    [of 2 3 "[(''d1'', 1), (''d2'', 2), (''d3'', 3), (''d4'', 4), (''d5'', 0)]"]
  by (simp add: flag_loop_def flag_step_def flag_init_def Let_def)

section \<open>Counting in hh\_llindex.js\<close>

lemma fold_date_step_allDates:
  "allDates (fold (date_step hh ll) ds st) = fold set_add ds (allDates st)"
  by (induction ds arbitrary: st) (simp_all add: date_step_def Let_def)

lemma fold_date_step_hh:
  "hh_counts (fold (date_step hh ll) ds st) =
     incrs (filter (\<lambda>d. \<not> d < ANALYSIS_START \<and> flag_set hh d) ds) (hh_counts st)"
  by (induction ds arbitrary: st) (simp_all add: date_step_def Let_def incrs_def)

lemma fold_date_step_ll:
  "ll_counts (fold (date_step hh ll) ds st) =
     incrs (filter (\<lambda>d. \<not> d < ANALYSIS_START \<and> flag_set ll d) ds) (ll_counts st)"
  by (induction ds arbitrary: st) (simp_all add: date_step_def Let_def incrs_def)

lemma fold_date_step_log:
  "requests_x (fold (date_step hh ll) ds st) = requests_x st \<and>
   skipped_x (fold (date_step hh ll) ds st) = skipped_x st"
  by (induction ds arbitrary: st) (simp_all add: date_step_def Let_def)

lemma processSymbol_hhll_allDates:
  "allDates (processSymbol_hhll e smb st) = fold set_add (dates_hhll e smb) (allDates st)"
  by (simp add: processSymbol_hhll_def dates_hhll_def Let_def fold_date_step_allDates
        split: sum.splits prod.splits)

lemma processSymbol_hhll_hh:
  "hh_counts (processSymbol_hhll e smb st) = incrs (hh_incs e smb) (hh_counts st)"
  by (simp add: processSymbol_hhll_def hh_incs_def Let_def fold_date_step_hh incrs_def
        split: sum.splits prod.splits)

lemma processSymbol_hhll_ll:
  "ll_counts (processSymbol_hhll e smb st) = incrs (ll_incs e smb) (ll_counts st)"
  by (simp add: processSymbol_hhll_def ll_incs_def Let_def fold_date_step_ll incrs_def
        split: sum.splits prod.splits)

lemma processSymbol_hhll_requests:
  "requests_x (processSymbol_hhll e smb st) = requests_x st @ [smb]"
  by (simp add: processSymbol_hhll_def Let_def fold_date_step_log split: sum.splits prod.splits)

lemma processSymbol_hhll_skipped:
  "skipped_x (processSymbol_hhll e smb st) =
     skipped_x st @ (case flagHHLLforSymbol e smb of Inl err \<Rightarrow> [(smb, err)] | Inr r \<Rightarrow> [])"
  by (simp add: processSymbol_hhll_def Let_def fold_date_step_log split: sum.splits prod.splits)

lemma fold_processSymbol_hhll_allDates:
  "allDates (fold (processSymbol_hhll e) syms st) =
     fold set_add (concat (map (dates_hhll e) syms)) (allDates st)"
  by (induction syms arbitrary: st) (simp_all add: processSymbol_hhll_allDates)

lemma fold_processSymbol_hhll_hh:
  "hh_counts (fold (processSymbol_hhll e) syms st) =
     incrs (concat (map (hh_incs e) syms)) (hh_counts st)"
  by (induction syms arbitrary: st) (simp_all add: processSymbol_hhll_hh incrs_def)

lemma fold_processSymbol_hhll_ll:
  "ll_counts (fold (processSymbol_hhll e) syms st) =
     incrs (concat (map (ll_incs e) syms)) (ll_counts st)"
  by (induction syms arbitrary: st) (simp_all add: processSymbol_hhll_ll incrs_def)

lemma count_or_zero_incr:
  "count_or_zero (incr d m) d' = (if d' = d then count_or_zero m d + 1 else count_or_zero m d')"
  by (simp add: incr_def count_or_zero_def AList.update_conv')

lemma count_or_zero_incrs:
  "count_or_zero (incrs ds m) d = count_or_zero m d + count (mset ds) d"
  by (induction ds arbitrary: m) (auto simp: incrs_def count_or_zero_incr)

lemma set_fold_set_add: "set (fold set_add ds xs) = set xs \<union> set ds"
  by (induction ds arbitrary: xs) (auto simp: set_add_def)

lemma distinct_fold_set_add: "distinct xs \<Longrightarrow> distinct (fold set_add ds xs)"
  by (induction ds arbitrary: xs) (simp_all add: set_add_def)

lemma distinct_flag_keys:
  "distinct (map fst (hh_flags st)) \<Longrightarrow> distinct (map fst (hh_flags (fold (flag_step w) cs st)))"
  by (induction cs arbitrary: st) (simp_all add: flag_step_def Let_def AList.distinct_update)

lemma distinct_hh_incs: "distinct (hh_incs e smb)"
  using distinct_flag_keys [of flag_init LOOKBACK_DAYS]
  by (auto simp: hh_incs_def flagHHLLforSymbol_def flag_loop_def flag_init_def Let_def
        split: sum.splits prod.splits)

lemma distinct_ll_incs: "distinct (ll_incs e smb)"
  using distinct_flag_keys [of flag_init LOOKBACK_DAYS]
  by (auto simp: ll_incs_def flagHHLLforSymbol_def flag_loop_def flag_init_def Let_def
        split: sum.splits prod.splits)

lemma hhll_at_most_one:
  "count_or_zero (hh_counts (processSymbol_hhll e smb st)) d \<le> count_or_zero (hh_counts st) d + 1
 \<and> count_or_zero (ll_counts (processSymbol_hhll e smb st)) d \<le> count_or_zero (ll_counts st) d + 1"
  using distinct_hh_incs [of e smb] distinct_ll_incs [of e smb]
  by (simp add: processSymbol_hhll_hh processSymbol_hhll_ll count_or_zero_incrs
        distinct_count_atmost_1)

lemma short_no_flags:
  "length cs \<le> w \<Longrightarrow>
   window90 (flag_loop w cs) = map snd cs
   \<and> (\<forall>d. \<not> flag_set (hh_flags (flag_loop w cs)) d)
   \<and> (\<forall>d. \<not> flag_set (ll_flags (flag_loop w cs)) d)"
proof (induction cs rule: rev_induct)
  case Nil
  then show ?case by (simp add: flag_loop_def flag_init_def flag_set_def)
next
  case (snoc x xs)
  then show ?case
    by (simp add: flag_loop_def flag_step_def Let_def flag_set_def AList.update_conv')
qed

section \<open>Increments per date\<close>

text \<open>
  C3, as stated, fails: when the service repeats the bar of 2023-12-17, the one
  instrument adds at least two increments to the entry of that date in
  final\_index.js.
\<close>

theorem repeated_bar_counterexample:
  "2 \<le> pos (counts_or_zero (breadth (processSymbol_final repeated_env ''AUSDT'' init_final))
             ''2023-12-17'')
       + neg (counts_or_zero (breadth (processSymbol_final repeated_env ''AUSDT'' init_final))
             ''2023-12-17'')"
proof -
  let ?kl = "flat_bars 1685577600000 199 1 @ [(1702771200000, 1), (1702771200000, 1)]"
  have n: "200 \<le> length ?kl" by (simp add: length_flat_bars)
  have d: "dayjs_format repeated_env 1702771200000 = ''2023-12-17''"
    by (simp add: repeated_env_def example_env_def utc_date_examples)
  have "2 \<le> length (filter (\<lambda>k. dayjs_format repeated_env (fst k) = ''2023-12-17'') ?kl)"
    using d by simp
  moreover have "map fst (contribs_final repeated_env ''AUSDT'')
      = map (\<lambda>k. dayjs_format repeated_env (fst k)) ?kl"
    using fetch_repeated_final n by (rule contribs_final_enough)
  then have "length (filter (\<lambda>c. fst c = ''2023-12-17'') (contribs_final repeated_env ''AUSDT''))
      = length (filter (\<lambda>k. dayjs_format repeated_env (fst k) = ''2023-12-17'') ?kl)"
    by (simp add: length_filter_map_fst filter_map comp_def)
  ultimately show ?thesis
    by (simp add: processSymbol_final_breadth bumps_total)
qed

text \<open>
  C3, amended. In hh\_llindex.js an instrument adds at most one increment to the
  higher-high count and at most one to the lower-low count of a date, whatever dates its
  bars have: the flags are keyed by date. In final\_index.js an instrument with at least
  200 bars adds to the entry of a date one increment for each of its bars on that date,
  hence at most one only when no two of its bars fall on the same date.
\<close>

theorem one_increment_per_bar:
  "count_or_zero (hh_counts (processSymbol_hhll e smb stx)) d
     \<le> count_or_zero (hh_counts stx) d + 1
 \<and> count_or_zero (ll_counts (processSymbol_hhll e smb stx)) d
     \<le> count_or_zero (ll_counts stx) d + 1
 \<and> (fetchDailyKlines_final e smb = Inr kl \<and> 200 \<le> length kl \<longrightarrow>
      (let before = counts_or_zero (breadth st) d;
           after = counts_or_zero (breadth (processSymbol_final e smb st)) d
       in pos after + neg after =
            pos before + neg before + length (filter (\<lambda>k. dayjs_format e (fst k) = d) kl)))"
proof -
  have "length (filter (\<lambda>c. fst c = d) (contribs_final e smb))
      = length (filter (\<lambda>k. dayjs_format e (fst k) = d) kl)"
    if "fetchDailyKlines_final e smb = Inr kl" "200 \<le> length kl"
    using contribs_final_enough [OF that]
    by (simp add: length_filter_map_fst filter_map comp_def)
  then show ?thesis
    using hhll_at_most_one [of e smb stx d]
    by (simp add: Let_def processSymbol_final_breadth bumps_total)
qed

theorem one_increment_per_bar_witness:
  "fetchDailyKlines_final repeated_env ''AUSDT'' =
     Inr (flat_bars 1685577600000 199 1 @ [(1702771200000, 1), (1702771200000, 1)])
   \<and> 200 \<le> length (flat_bars 1685577600000 199 1 @ [(1702771200000, 1), (1702771200000, 1)])
   \<and> pos (counts_or_zero (breadth (processSymbol_final repeated_env ''AUSDT'' init_final))
          ''2023-12-17'')
       + neg (counts_or_zero (breadth (processSymbol_final repeated_env ''AUSDT'' init_final))
          ''2023-12-17'')
     = length (filter (\<lambda>k. dayjs_format repeated_env (fst k) = ''2023-12-17'')
         (flat_bars 1685577600000 199 1 @ [(1702771200000, 1), (1702771200000, 1)]))"
  using one_increment_per_bar [of repeated_env "''AUSDT''" init_hhll "''2023-12-17''"
      "flat_bars 1685577600000 199 1 @ [(1702771200000, 1), (1702771200000, 1)]" init_final]
    fetch_repeated_final
  by (simp add: Let_def length_flat_bars init_final_def counts_or_zero_def)

section \<open>Instruments with a short history\<close>

lemma hhll_short:
  assumes "fetchDailyKlines_hhll e smb = Inr candles" "length candles < 90"
  shows "hh_incs e smb = [] \<and> ll_incs e smb = []"
proof -
  have "length candles \<le> LOOKBACK_DAYS" using assms by (simp add: LOOKBACK_DAYS_def)
  from short_no_flags [OF this] assms(1) show ?thesis
    by (simp add: hh_incs_def ll_incs_def flagHHLLforSymbol_def Let_def)
qed

text \<open>
  C6. An instrument whose fetched sequence has fewer than 200 bars leaves the breadth
  object and the rows of the EMA scripts as they are (only the request is on record),
  and an instrument with fewer than 90 bars leaves every higher-high and lower-low count
  of hh\_llindex.js as it is; in neither case is anything logged as an error.
\<close>

theorem insufficient_history_skip:
  "(fetchDailyKlines_final e smb = Inr kl \<and> length kl < 200 \<longrightarrow>
      processSymbol_final e smb st = st\<lparr>requests := requests st @ [smb]\<rparr>)
 \<and> (fetchKlines_pct e smb = Inr kl' \<and> length kl' < 200 \<longrightarrow>
      processSymbol_pct e smb stp = stp\<lparr>requests_p := requests_p stp @ [smb]\<rparr>)
 \<and> (fetchDailyKlines_hhll e smb = Inr candles \<and> length candles < 90 \<longrightarrow>
      hh_counts (processSymbol_hhll e smb stx) = hh_counts stx
    \<and> ll_counts (processSymbol_hhll e smb stx) = ll_counts stx
    \<and> skipped_x (processSymbol_hhll e smb stx) = skipped_x stx)"
proof -
  have "skipped_x (processSymbol_hhll e smb stx) = skipped_x stx"
    if "fetchDailyKlines_hhll e smb = Inr candles"
    using that by (simp add: processSymbol_hhll_skipped flagHHLLforSymbol_def Let_def)
  then show ?thesis
    using hhll_short [of e smb candles]
    by (auto simp: processSymbol_final_short processSymbol_pct_short processSymbol_hhll_hh
          processSymbol_hhll_ll incrs_def)
qed

theorem insufficient_history_skip_witness:
  "fetchDailyKlines_final short_env ''AUSDT'' = Inr three_days \<and> length three_days < 200
   \<and> fetchKlines_pct short_env ''AUSDT'' = Inr three_days
   \<and> fetchDailyKlines_hhll short_env ''AUSDT'' =
        Inr [(''2024-01-01'', 1), (''2024-01-02'', 2), (''2024-01-03'', 3)]
   \<and> processSymbol_final short_env ''AUSDT'' init_final = init_final\<lparr>requests := [''AUSDT'']\<rparr>
   \<and> processSymbol_pct short_env ''AUSDT'' init_pct = init_pct\<lparr>requests_p := [''AUSDT'']\<rparr>
   \<and> hh_counts (processSymbol_hhll short_env ''AUSDT'' init_hhll) = []
   \<and> ll_counts (processSymbol_hhll short_env ''AUSDT'' init_hhll) = []"
  using insufficient_history_skip [of short_env "''AUSDT''" three_days init_final three_days
      init_pct "[(''2024-01-01'', 1), (''2024-01-02'', 2), (''2024-01-03'', 3)]" init_hhll]
    fetch_short [of "''AUSDT''"]
  by (simp add: three_days_def init_final_def init_pct_def init_hhll_def)

section \<open>Independence of the processing order\<close>

lemma hhll_record_cong:
  "count_or_zero (hh_counts st) d = count_or_zero (hh_counts st') d \<Longrightarrow>
   count_or_zero (ll_counts st) d = count_or_zero (ll_counts st') d \<Longrightarrow>
   hhll_record st d = hhll_record st' d"
  by (simp add: hhll_record_def)

lemma hhll_state_perm:
  fixes e :: env
  assumes "mset symbols = mset symbols'"
  defines "st \<equiv> fold (processSymbol_hhll e) symbols init_hhll"
    and "st' \<equiv> fold (processSymbol_hhll e) symbols' init_hhll"
  shows "set (allDates st) = set (allDates st')"
    and "distinct (allDates st)" and "distinct (allDates st')"
    and "hhll_record st = hhll_record st'"
proof -
  have d: "mset (concat (map (dates_hhll e) symbols)) = mset (concat (map (dates_hhll e) symbols'))"
    using assms(1) by (rule mset_concat_map_perm)
  have h: "mset (concat (map (hh_incs e) symbols)) = mset (concat (map (hh_incs e) symbols'))"
    using assms(1) by (rule mset_concat_map_perm)
  have l: "mset (concat (map (ll_incs e) symbols)) = mset (concat (map (ll_incs e) symbols'))"
    using assms(1) by (rule mset_concat_map_perm)
  show "set (allDates st) = set (allDates st')"
    using mset_eq_setD [OF d]
    by (simp add: st_def st'_def fold_processSymbol_hhll_allDates set_fold_set_add)
  show "distinct (allDates st)" "distinct (allDates st')"
    by (simp_all add: st_def st'_def fold_processSymbol_hhll_allDates distinct_fold_set_add
          init_hhll_def)
  have "hhll_record st d = hhll_record st' d" for d
    by (rule hhll_record_cong)
      (simp_all add: st_def st'_def fold_processSymbol_hhll_hh fold_processSymbol_hhll_ll
         count_or_zero_incrs h l)
  then show "hhll_record st = hhll_record st'" by (rule ext)
qed

lemma sort_key_perm_inj:
  fixes k :: "'a \<Rightarrow> 'b::linorder"
  assumes "distinct xs" "distinct ys" "set xs = set ys" "inj_on k (set xs)"
  shows "sort_key k xs = sort_key k ys"
proof (rule map_sorted_distinct_set_unique [where f = k])
  show "inj_on k (set (sort_key k xs) \<union> set (sort_key k ys))" using assms by simp
  show "distinct (map k (sort_key k xs))" using assms by (simp add: distinct_map)
  show "distinct (map k (sort_key k ys))" using assms by (simp add: distinct_map)
qed (simp_all add: assms)

text \<open>
  C7. Processing the instruments of a universe in any permutation of their order gives
  the same breadth file for final\_index.js (the same dates, counts and percentages, in
  the same order) and the same set of rows for hh\_llindex.js; the rows of
  hh\_llindex.js also come in the same order when the collected dates parse to distinct
  instants, which is what its sort compares.
\<close>

theorem aggregate_order_independent:
  assumes "mset symbols = mset symbols'"
  shows "breadth_csv (run_final e symbols) = breadth_csv (run_final e symbols')
     \<and> map_option set (hh_ll_net_csv (run_hhll e symbols))
         = map_option set (hh_ll_net_csv (run_hhll e symbols'))
     \<and> (inj_on (date_key e) (set (allDates (fold (processSymbol_hhll e) symbols init_hhll))) \<longrightarrow>
          hh_ll_net_csv (run_hhll e symbols) = hh_ll_net_csv (run_hhll e symbols'))"
proof -
  let ?st = "fold (processSymbol_hhll e) symbols init_hhll"
  let ?st' = "fold (processSymbol_hhll e) symbols' init_hhll"
  let ?P = "\<lambda>d. ANALYSIS_START \<le> d"
  note H = hhll_state_perm [of symbols symbols' e, OF assms]
  have "mset (concat (map (contribs_final e) symbols))
      = mset (concat (map (contribs_final e) symbols'))"
    using assms by (rule mset_concat_map_perm)
  then have "breadth_records (bumps (concat (map (contribs_final e) symbols)) [])
      = breadth_records (bumps (concat (map (contribs_final e) symbols')) [])"
    by (rule breadth_records_mset)
  then have A: "breadth_csv (run_final e symbols) = breadth_csv (run_final e symbols')"
    by (simp add: run_final_def Let_def fold_processSymbol_final_breadth init_final_def)
  have B: "set (output_hhll e ?st) = set (output_hhll e ?st')"
    using H(1) H(4) by (simp add: output_hhll_def)
  have C: "output_hhll e ?st = output_hhll e ?st'" if inj: "inj_on (date_key e) (set (allDates ?st))"
  proof -
    have "sort_key (date_key e) (filter ?P (allDates ?st))
        = sort_key (date_key e) (filter ?P (allDates ?st'))"
    proof (rule sort_key_perm_inj)
      show "inj_on (date_key e) (set (filter ?P (allDates ?st)))"
        using inj by (auto intro: inj_on_subset)
    qed (simp_all add: H)
    then show ?thesis using H(4) by (simp add: output_hhll_def)
  qed
  show ?thesis using A B C by (simp add: run_hhll_def Let_def)
qed

theorem aggregate_order_independent_witness:
  "mset [''AUSDT'', ''BUSDT''] = mset [''BUSDT'', ''AUSDT'']
   \<and> inj_on (date_key (example_env (\<lambda>s. Inr three_days)))
        (set (allDates (fold (processSymbol_hhll (example_env (\<lambda>s. Inr three_days)))
           [''AUSDT'', ''BUSDT''] init_hhll)))
   \<and> breadth_csv (run_final (example_env (\<lambda>s. Inr three_days)) [''AUSDT'', ''BUSDT''])
     = breadth_csv (run_final (example_env (\<lambda>s. Inr three_days)) [''BUSDT'', ''AUSDT''])
   \<and> hh_ll_net_csv (run_hhll (example_env (\<lambda>s. Inr three_days)) [''AUSDT'', ''BUSDT''])
     = hh_ll_net_csv (run_hhll (example_env (\<lambda>s. Inr three_days)) [''BUSDT'', ''AUSDT''])"
proof -
  let ?e = "example_env (\<lambda>s. Inr three_days)"
  have m: "mset [''AUSDT'', ''BUSDT''] = mset [''BUSDT'', ''AUSDT'']" by simp
  have "allDates (fold (processSymbol_hhll ?e) [''AUSDT'', ''BUSDT''] init_hhll)
      = [''2024-01-01'', ''2024-01-02'', ''2024-01-03'']"
    unfolding fold_processSymbol_hhll_allDates
    by (simp add: dates_three_days init_hhll_def set_add_def)
  moreover have "inj_on (date_key ?e) (set [''2024-01-01'', ''2024-01-02'', ''2024-01-03''])"
    by (simp add: date_key_def example_env_def parse_date_examples)
  ultimately have i: "inj_on (date_key ?e)
      (set (allDates (fold (processSymbol_hhll ?e) [''AUSDT'', ''BUSDT''] init_hhll)))"
    by simp
  from aggregate_order_independent [OF m, of ?e] m i show ?thesis by blast
qed

section \<open>Failures\<close>

lemma concat_map_filter_nil:
  "(\<And>x. \<not> P x \<Longrightarrow> f x = []) \<Longrightarrow> concat (map f (filter P xs)) = concat (map f xs)"
  by (induction xs) simp_all

lemma contribs_final_failed: "\<not> fetch_ok e smb \<Longrightarrow> contribs_final e smb = []"
  by (simp add: fetch_ok_def contribs_final_def fetchDailyKlines_final_def split: sum.splits)

lemma rows_final_failed: "\<not> fetch_ok e smb \<Longrightarrow> rows_final e smb = []"
  by (simp add: fetch_ok_def rows_final_def fetchDailyKlines_final_def split: sum.splits)

lemma flagHHLL_failed: "\<not> fetch_ok e smb \<Longrightarrow> \<exists>err. flagHHLLforSymbol e smb = Inl err"
  by (simp add: fetch_ok_def flagHHLLforSymbol_def fetchDailyKlines_hhll_def split: sum.splits)

lemma dates_hhll_failed: "\<not> fetch_ok e smb \<Longrightarrow> dates_hhll e smb = []"
  using flagHHLL_failed [of e smb] by (auto simp: dates_hhll_def)

lemma hh_incs_failed: "\<not> fetch_ok e smb \<Longrightarrow> hh_incs e smb = []"
  using flagHHLL_failed [of e smb] by (auto simp: hh_incs_def)

lemma ll_incs_failed: "\<not> fetch_ok e smb \<Longrightarrow> ll_incs e smb = []"
  using flagHHLL_failed [of e smb] by (auto simp: ll_incs_def)

lemma fold_processSymbol_final_skipped:
  "skipped (fold (processSymbol_final e) syms st) = skipped st @ fetch_errors e syms"
  by (induction syms arbitrary: st)
    (simp_all add: processSymbol_final_skipped fetch_errors_def fetchDailyKlines_final_def
       split: sum.splits)

lemma fold_processSymbol_final_requests:
  "requests (fold (processSymbol_final e) syms st) = requests st @ syms"
  by (induction syms arbitrary: st) (simp_all add: processSymbol_final_requests)

lemma flagHHLL_error_iff:
  "(case flagHHLLforSymbol e smb of Inl err \<Rightarrow> [(smb, err)] | Inr r \<Rightarrow> [])
     = (case klines e smb of Inl err \<Rightarrow> [(smb, err)] | Inr data \<Rightarrow> [])"
  by (simp add: flagHHLLforSymbol_def fetchDailyKlines_hhll_def Let_def split: sum.splits)

lemma fold_processSymbol_hhll_skipped:
  "skipped_x (fold (processSymbol_hhll e) syms st) = skipped_x st @ fetch_errors e syms"
  by (induction syms arbitrary: st)
    (simp_all add: processSymbol_hhll_skipped fetch_errors_def flagHHLL_error_iff)

lemma rows_final_symbol:
  "r \<in> set (rows_final e smb) \<Longrightarrow> rf_symbol r = smb \<and> fetch_ok e smb"
  by (auto simp: rows_final_def mk_row_final_def fetch_ok_def fetchDailyKlines_final_def
        split: sum.splits if_splits)

lemma counts_or_zero_Nil: "counts_or_zero [] d = \<lparr>pos = 0, neg = 0\<rparr>"
  by (simp add: counts_or_zero_def)

lemma count_or_zero_Nil: "count_or_zero [] d = 0"
  by (simp add: count_or_zero_def)

lemma br_date_breadth_record: "br_date (breadth_record b d) = d"
  by (simp add: breadth_record_def Let_def)

lemma map_br_date_breadth_records:
  "map br_date (breadth_records (bumps C [])) = sorted_list_of_set (fst ` set C)"
proof -
  have "map br_date (breadth_records (bumps C [])) = sort (map fst (bumps C []))"
    by (simp add: breadth_records_def comp_def br_date_breadth_record)
  also have "\<dots> = sort (remdups (map fst (bumps C [])))"
    using bumps_distinct [of "[]" C] by (simp add: distinct_remdups_id)
  also have "\<dots> = sorted_list_of_set (set (map fst (bumps C [])))"
    by (simp only: sorted_list_of_set_sort_remdups)
  finally show ?thesis by (simp add: bumps_keys)
qed

lemma breadth_records_rows:
  assumes "r \<in> set (breadth_records (bumps C []))"
  shows "br_positive r = count (mset C) (br_date r, True)
     \<and> br_negative r = count (mset C) (br_date r, False)
     \<and> br_pos_pct r = toFixed2 (js_times (js_div (br_positive r) (br_positive r + br_negative r)) 100)
     \<and> br_neg_pct r = toFixed2 (js_times (js_div (br_negative r) (br_positive r + br_negative r)) 100)"
proof -
  from assms obtain d where r: "r = breadth_record (bumps C []) d"
    by (auto simp: breadth_records_def)
  show ?thesis
    unfolding r
    by (simp add: breadth_record_def Let_def bumps_pos bumps_neg counts_or_zero_Nil)
qed

lemma run_final_breadth:
  assumes "mset arrived = mset u"
  shows "breadth_records (breadth (fold (processSymbol_final e) arrived init_final))
     = breadth_records (bumps (concat (map (contribs_final e) (filter (fetch_ok e) u))) [])"
proof -
  have "mset (concat (map (contribs_final e) arrived))
      = mset (concat (map (contribs_final e) u))"
    using assms by (rule mset_concat_map_perm)
  also have "concat (map (contribs_final e) u)
      = concat (map (contribs_final e) (filter (fetch_ok e) u))"
    by (simp add: concat_map_filter_nil contribs_final_failed)
  finally have "breadth_records (bumps (concat (map (contribs_final e) arrived)) [])
      = breadth_records (bumps (concat (map (contribs_final e) (filter (fetch_ok e) u))) [])"
    by (rule breadth_records_mset)
  then show ?thesis
    by (simp add: fold_processSymbol_final_breadth init_final_def)
qed

lemma run_final_rows:
  "rowsSym (fold (processSymbol_final e) arrived init_final)
     = concat (map (rows_final e) (filter (fetch_ok e) arrived))"
  by (simp add: fold_processSymbol_final_rows init_final_def concat_map_filter_nil
        rows_final_failed)

lemma hr_date_hhll_record: "hr_date (hhll_record st d) = d"
  by (simp add: hhll_record_def)

lemma run_hhll_output:
  fixes e :: env and arrived u :: "symbol list"
  assumes "mset arrived = mset u"
  defines "st \<equiv> fold (processSymbol_hhll e) arrived init_hhll"
  defines "ok \<equiv> filter (fetch_ok e) u"
  shows "set (map hr_date (output_hhll e st))
       = {d \<in> set (concat (map (dates_hhll e) ok)). ANALYSIS_START \<le> d}"
    and "distinct (map hr_date (output_hhll e st))"
    and "sorted (map (date_key e) (map hr_date (output_hhll e st)))"
    and "\<forall>r \<in> set (output_hhll e st).
           hh_count r = count (mset (concat (map (hh_incs e) ok))) (hr_date r)
         \<and> ll_count r = count (mset (concat (map (ll_incs e) ok))) (hr_date r)
         \<and> net_count r = int (hh_count r) - int (ll_count r)"
proof -
  have m: "mset (concat (map f arrived)) = mset (concat (map f u))" for f :: "symbol \<Rightarrow> date list"
    using assms(1) by (rule mset_concat_map_perm)
  have D: "concat (map (dates_hhll e) u) = concat (map (dates_hhll e) ok)"
    and H: "concat (map (hh_incs e) u) = concat (map (hh_incs e) ok)"
    and L: "concat (map (ll_incs e) u) = concat (map (ll_incs e) ok)"
    by (simp_all add: ok_def concat_map_filter_nil dates_hhll_failed hh_incs_failed
          ll_incs_failed)
  have dates: "map hr_date (output_hhll e st)
      = sort_key (date_key e) (filter (\<lambda>d. ANALYSIS_START \<le> d) (allDates st))"
    by (simp add: output_hhll_def comp_def hr_date_hhll_record)
  have all: "set (allDates st) = set (concat (map (dates_hhll e) ok))"
    using mset_eq_setD [OF m [of "dates_hhll e"]]
    by (simp add: st_def fold_processSymbol_hhll_allDates set_fold_set_add init_hhll_def D)
  have dist: "distinct (allDates st)"
    by (simp add: st_def fold_processSymbol_hhll_allDates distinct_fold_set_add init_hhll_def)
  show "set (map hr_date (output_hhll e st))
       = {d \<in> set (concat (map (dates_hhll e) ok)). ANALYSIS_START \<le> d}"
    unfolding dates using all by auto
  show "distinct (map hr_date (output_hhll e st))"
    unfolding dates using dist by simp
  show "sorted (map (date_key e) (map hr_date (output_hhll e st)))"
    unfolding dates by simp
  have hh: "count_or_zero (hh_counts st) d = count (mset (concat (map (hh_incs e) ok))) d" for d
    using m [of "hh_incs e"]
    by (simp add: st_def fold_processSymbol_hhll_hh count_or_zero_incrs init_hhll_def
          count_or_zero_Nil H)
  have ll: "count_or_zero (ll_counts st) d = count (mset (concat (map (ll_incs e) ok))) d" for d
    using m [of "ll_incs e"]
    by (simp add: st_def fold_processSymbol_hhll_ll count_or_zero_incrs init_hhll_def
          count_or_zero_Nil L)
  show "\<forall>r \<in> set (output_hhll e st).
           hh_count r = count (mset (concat (map (hh_incs e) ok))) (hr_date r)
         \<and> ll_count r = count (mset (concat (map (ll_incs e) ok))) (hr_date r)
         \<and> net_count r = int (hh_count r) - int (ll_count r)"
    by (auto simp: output_hhll_def hhll_record_def hh ll)
qed

lemma exchangeInfo_one_down:
  "exchangeInfo one_down = Inr [usdt_spot ''AUSDT'', usdt_spot ''BUSDT'']"
  "exchangeInfo one_undecoded = Inr [usdt_spot ''AUSDT'', usdt_spot ''BUSDT'']"
  by (simp_all add: one_down_def one_undecoded_def example_env_def)

lemma completion_order_one_down:
  "completion_order one_down [''AUSDT'', ''BUSDT''] = [''BUSDT'', ''AUSDT'']"
  "completion_order one_undecoded [''AUSDT'', ''BUSDT''] = [''BUSDT'', ''AUSDT'']"
  by (simp_all add: completion_order_def one_down_def one_undecoded_def example_env_def)

lemma fetch_one_undecoded:
  "fetchDailyKlines_final one_undecoded ''AUSDT'' = Inr (flat_bars 1685577600000 200 1)"
  "fetchDailyKlines_final one_undecoded ''BUSDT'' = Inl DecodeError"
  by (simp_all add: fetchDailyKlines_final_def one_undecoded_def example_env_def
        cutoff_final_def filter_flat_bars)

lemma fetch_one_down:
  "fetchDailyKlines_hhll one_down ''AUSDT'' = Inl TransportError"
  "fetchDailyKlines_hhll one_down ''BUSDT'' =
     Inr [(''2024-01-01'', 1), (''2024-01-02'', 2), (''2024-01-03'', 3)]"
  by (simp_all add: fetchDailyKlines_hhll_def one_down_def example_env_def three_days_def
        cutoff_hhll_def utc_date_examples parse_date_examples)

lemma date_order_examples:
  "\<not> ''2024-01-01'' < ANALYSIS_START"
  "\<not> ''2024-01-02'' < ANALYSIS_START"
  "\<not> ''2024-01-03'' < ANALYSIS_START"
  "ANALYSIS_START \<le> ''2024-01-01''"
  "ANALYSIS_START \<le> ''2024-01-02''"
  "ANALYSIS_START \<le> ''2024-01-03''"
  by (simp_all add: ANALYSIS_START_def less_char_def less_eq_char_def)

lemma output_one_down:
  "hh_ll_net_csv (main_hhll one_down) =
     Some [\<lparr>hr_date = ''2024-01-01'', hh_count = 0, ll_count = 0, net_count = 0\<rparr>,
           \<lparr>hr_date = ''2024-01-02'', hh_count = 0, ll_count = 0, net_count = 0\<rparr>,
           \<lparr>hr_date = ''2024-01-03'', hh_count = 0, ll_count = 0, net_count = 0\<rparr>]"
proof -
  have k: "date_key one_down ''2024-01-01'' = 1704067200000"
    "date_key one_down ''2024-01-02'' = 1704153600000"
    "date_key one_down ''2024-01-03'' = 1704240000000"
    by (simp_all add: date_key_def one_down_def example_env_def parse_date_examples)
  have st: "processSymbol_hhll one_down ''AUSDT''
        (processSymbol_hhll one_down ''BUSDT'' init_hhll) =
      \<lparr>allDates = [''2024-01-01'', ''2024-01-02'', ''2024-01-03''], hh_counts = [],
       ll_counts = [], requests_x = [''BUSDT'', ''AUSDT''],
       skipped_x = [(''AUSDT'', TransportError)]\<rparr>"
    by (simp add: processSymbol_hhll_def flagHHLLforSymbol_def fetch_one_down flag_loop_def
          flag_step_def flag_init_def LOOKBACK_DAYS_def Let_def date_step_def set_add_def
          flag_set_def init_hhll_def date_order_examples)
  show ?thesis
    by (simp add: main_hhll_def exchangeInfo_one_down universe_example
          completion_order_one_down run_hhll_def Let_def st output_hhll_def
          date_order_examples k hhll_record_def count_or_zero_def)
qed

lemma rows_one_undecoded:
  "length (rows_final one_undecoded ''AUSDT'') = 200"
  "rows_final one_undecoded ''AUSDT'' ! 0 =
     \<lparr>rf_symbol = ''AUSDT'', rf_date = ''2023-06-01'', rf_close = 1,
      rf_ema50 = Null, rf_ema200 = Null, rf_signal = 1\<rparr>"
  "rows_final one_undecoded ''BUSDT'' = []"
proof -
  let ?kl = "flat_bars 1685577600000 200 1"
  have d: "dayjs_format one_undecoded (fst (?kl ! 0)) = ''2023-06-01''"
    by (simp add: nth_flat_bars one_undecoded_def example_env_def utc_date_examples)
  show "length (rows_final one_undecoded ''AUSDT'') = 200"
    by (simp add: rows_final_def fetch_one_undecoded length_flat_bars)
  show "rows_final one_undecoded ''AUSDT'' ! 0 =
     \<lparr>rf_symbol = ''AUSDT'', rf_date = ''2023-06-01'', rf_close = 1,
      rf_ema50 = Null, rf_ema200 = Null, rf_signal = 1\<rparr>"
    using d
    by (simp add: rows_final_def fetch_one_undecoded length_flat_bars nth_map_upt
          mk_row_final_def ok_final_def nth_js_series_0 nth_flat_bars)
  show "rows_final one_undecoded ''BUSDT'' = []"
    by (simp add: rows_final_def fetch_one_undecoded)
qed

lemma files_one_undecoded:
  "values_csv (main_final one_undecoded) = Some (rows_final one_undecoded ''AUSDT'')"
  "skipped_final (main_final one_undecoded) = [(''BUSDT'', DecodeError)]"
  "breadth_csv (main_final one_undecoded) \<noteq> Some []"
proof -
  have mf: "main_final one_undecoded = run_final one_undecoded [''BUSDT'', ''AUSDT'']"
    by (simp add: main_final_def exchangeInfo_one_down universe_example
          completion_order_one_down)
  show "values_csv (main_final one_undecoded) = Some (rows_final one_undecoded ''AUSDT'')"
    using fold_processSymbol_final_rows [of one_undecoded "[''BUSDT'', ''AUSDT'']" init_final]
    unfolding mf run_final_def Let_def
    by (simp add: init_final_def rows_one_undecoded)
  show "skipped_final (main_final one_undecoded) = [(''BUSDT'', DecodeError)]"
    using fold_processSymbol_final_skipped [of one_undecoded "[''BUSDT'', ''AUSDT'']" init_final]
    unfolding mf run_final_def Let_def
    by (simp add: init_final_def fetch_errors_def one_undecoded_def example_env_def)
  have c: "contribs_final one_undecoded ''AUSDT'' \<noteq> []"
    by (simp add: contribs_final_def fetch_one_undecoded length_flat_bars)
  have "fst ` set (breadth (fold (processSymbol_final one_undecoded) [''BUSDT'', ''AUSDT'']
        init_final)) \<noteq> {}"
    unfolding fold_processSymbol_final_breadth bumps_keys using c by simp
  then have "breadth (fold (processSymbol_final one_undecoded) [''BUSDT'', ''AUSDT''] init_final)
      \<noteq> []"
    by auto
  then have "length (breadth_records (breadth (fold (processSymbol_final one_undecoded)
        [''BUSDT'', ''AUSDT''] init_final))) \<noteq> 0"
    unfolding breadth_records_def by simp
  then show "breadth_csv (main_final one_undecoded) \<noteq> Some []"
    unfolding mf run_final_def Let_def by auto
qed

text \<open>
  C8. When the universe has been resolved, a run completes with exit status 0 whatever
  subset of the klines requests fails, and its files are written. The console log names
  exactly the failed instruments, in the order in which the responses arrived. The
  detail file of final\_index.js holds, for each instrument whose request succeeded, one
  row per bar of that instrument (none if it has fewer than 200 bars), and no row with
  the symbol of a failed instrument. Its breadth file has one row for each date on which
  a successful instrument has a bar, in ascending order, with the number of those bars
  above both EMAs, the number of the others, and the two percentages of these counts.
  The file of hh\_llindex.js has one row for each date from \<^verbatim>\<open>ANALYSIS_START\<close> on that
  a successful instrument has a candle on, ordered by date, with the number of
  successful instruments whose flag is set on that date.
\<close>

theorem fetch_failures_are_skipped:
  assumes "exchangeInfo e = Inr ex"
  shows "(let arrived = completion_order e (universe ex);
              ok = filter (fetch_ok e) (universe ex);
              C = concat (map (contribs_final e) ok);
              D = concat (map (dates_hhll e) ok);
              H = concat (map (hh_incs e) ok);
              L = concat (map (ll_incs e) ok)
          in exit_final (main_final e) = 0
           \<and> skipped_final (main_final e) = fetch_errors e arrived
           \<and> (\<exists>rows. values_csv (main_final e) = Some rows
                \<and> rows = concat (map (rows_final e) (filter (fetch_ok e) arrived))
                \<and> (\<forall>r \<in> set rows. fetch_ok e (rf_symbol r)))
           \<and> (\<exists>rows. breadth_csv (main_final e) = Some rows
                \<and> map br_date rows = sorted_list_of_set (fst ` set C)
                \<and> (\<forall>r \<in> set rows.
                      br_positive r = count (mset C) (br_date r, True)
                    \<and> br_negative r = count (mset C) (br_date r, False)
                    \<and> br_pos_pct r = toFixed2 (js_times
                          (js_div (br_positive r) (br_positive r + br_negative r)) 100)
                    \<and> br_neg_pct r = toFixed2 (js_times
                          (js_div (br_negative r) (br_positive r + br_negative r)) 100)))
           \<and> exit_x (main_hhll e) = 0
           \<and> skipped_out_x (main_hhll e) = fetch_errors e arrived
           \<and> (\<exists>rows. hh_ll_net_csv (main_hhll e) = Some rows
                \<and> set (map hr_date rows) = {d \<in> set D. ANALYSIS_START \<le> d}
                \<and> distinct (map hr_date rows)
                \<and> sorted (map (date_key e) (map hr_date rows))
                \<and> (\<forall>r \<in> set rows.
                      hh_count r = count (mset H) (hr_date r)
                    \<and> ll_count r = count (mset L) (hr_date r)
                    \<and> net_count r = int (hh_count r) - int (ll_count r))))"
proof -
  let ?u = "universe ex"
  let ?a = "completion_order e ?u"
  let ?ok = "filter (fetch_ok e) ?u"
  let ?C = "concat (map (contribs_final e) ?ok)"
  have m: "mset ?a = mset ?u" by (rule mset_completion_order)
  have mf: "main_final e = run_final e ?a" and mh: "main_hhll e = run_hhll e ?a"
    using assms by (simp_all add: main_final_def main_hhll_def)
  have s1: "skipped_final (main_final e) = fetch_errors e ?a"
    by (simp add: mf run_final_def Let_def fold_processSymbol_final_skipped init_final_def)
  have s2: "skipped_out_x (main_hhll e) = fetch_errors e ?a"
    by (simp add: mh run_hhll_def Let_def fold_processSymbol_hhll_skipped init_hhll_def)
  have v: "values_csv (main_final e)
      = Some (concat (map (rows_final e) (filter (fetch_ok e) ?a)))"
    by (simp add: mf run_final_def Let_def run_final_rows)
  have vr: "\<forall>r \<in> set (concat (map (rows_final e) (filter (fetch_ok e) ?a))).
      fetch_ok e (rf_symbol r)"
    using rows_final_symbol [of _ e] by auto
  have b: "breadth_csv (main_final e) = Some (breadth_records (bumps ?C []))"
    by (simp add: mf run_final_def Let_def run_final_breadth [OF m])
  note B1 = map_br_date_breadth_records [of ?C]
  have B2: "\<forall>r \<in> set (breadth_records (bumps ?C [])).
        br_positive r = count (mset ?C) (br_date r, True)
      \<and> br_negative r = count (mset ?C) (br_date r, False)
      \<and> br_pos_pct r = toFixed2 (js_times
            (js_div (br_positive r) (br_positive r + br_negative r)) 100)
      \<and> br_neg_pct r = toFixed2 (js_times
            (js_div (br_negative r) (br_positive r + br_negative r)) 100)"
    using breadth_records_rows [of _ ?C] by blast
  have h: "hh_ll_net_csv (main_hhll e)
      = Some (output_hhll e (fold (processSymbol_hhll e) ?a init_hhll))"
    by (simp add: mh run_hhll_def Let_def)
  note O = run_hhll_output [of ?a ?u e, OF m]
  have e1: "exit_final (main_final e) = 0" by (simp add: mf run_final_def Let_def)
  have e2: "exit_x (main_hhll e) = 0" by (simp add: mh run_hhll_def Let_def)
  show ?thesis
    unfolding Let_def
    using e1 s1 v vr b B1 B2 e2 s2 h O by blast
qed

theorem fetch_failures_are_skipped_witness:
  "exchangeInfo one_undecoded = Inr [usdt_spot ''AUSDT'', usdt_spot ''BUSDT'']
   \<and> exchangeInfo one_down = Inr [usdt_spot ''AUSDT'', usdt_spot ''BUSDT'']
   \<and> exit_final (main_final one_undecoded) = 0
   \<and> skipped_final (main_final one_undecoded) = [(''BUSDT'', DecodeError)]
   \<and> values_csv (main_final one_undecoded) = Some (rows_final one_undecoded ''AUSDT'')
   \<and> length (rows_final one_undecoded ''AUSDT'') = 200
   \<and> rows_final one_undecoded ''AUSDT'' ! 0 =
        \<lparr>rf_symbol = ''AUSDT'', rf_date = ''2023-06-01'', rf_close = 1,
         rf_ema50 = Null, rf_ema200 = Null, rf_signal = 1\<rparr>
   \<and> breadth_csv (main_final one_undecoded) \<noteq> Some []
   \<and> exit_x (main_hhll one_down) = 0
   \<and> hh_ll_net_csv (main_hhll one_down) =
       Some [\<lparr>hr_date = ''2024-01-01'', hh_count = 0, ll_count = 0, net_count = 0\<rparr>,
             \<lparr>hr_date = ''2024-01-02'', hh_count = 0, ll_count = 0, net_count = 0\<rparr>,
             \<lparr>hr_date = ''2024-01-03'', hh_count = 0, ll_count = 0, net_count = 0\<rparr>]"
proof -
  note T1 = fetch_failures_are_skipped [OF exchangeInfo_one_down(2), unfolded Let_def]
  note T2 = fetch_failures_are_skipped [OF exchangeInfo_one_down(1), unfolded Let_def]
  have "exit_final (main_final one_undecoded) = 0" using T1 by blast
  moreover have "exit_x (main_hhll one_down) = 0" using T2 by blast
  ultimately show ?thesis
    using exchangeInfo_one_down files_one_undecoded rows_one_undecoded output_one_down
    by simp
qed

text \<open>
  C9. When the exchange-info request fails, every script ends with a non-zero exit
  status and that error, has issued no klines request and has written no file.
\<close>

theorem universe_failure_aborts:
  assumes "exchangeInfo e = Inl err"
  shows "exit_p (main_pct e) = 1 \<and> fatal_p (main_pct e) = Some err
     \<and> requests_out_p (main_pct e) = []
     \<and> breadth_pct_csv (main_pct e) = None \<and> values_csv_p (main_pct e) = None
     \<and> exit_final (main_final e) \<noteq> 0 \<and> fatal_final (main_final e) = Some err
     \<and> requests_final (main_final e) = []
     \<and> breadth_csv (main_final e) = None \<and> values_csv (main_final e) = None
     \<and> exit_x (main_hhll e) \<noteq> 0 \<and> fatal_x (main_hhll e) = Some err
     \<and> requests_out_x (main_hhll e) = [] \<and> hh_ll_net_csv (main_hhll e) = None"
  using assms
  by (simp add: main_pct_def main_final_def main_hhll_def unhandled_rejection_exit_def)

theorem universe_failure_aborts_witness:
  "exchangeInfo down_env = Inl TransportError
   \<and> exit_p (main_pct down_env) = 1 \<and> breadth_pct_csv (main_pct down_env) = None
   \<and> exit_final (main_final down_env) = 1 \<and> breadth_csv (main_final down_env) = None
   \<and> exit_x (main_hhll down_env) = 1 \<and> hh_ll_net_csv (main_hhll down_env) = None"
  using universe_failure_aborts [of down_env TransportError]
  by (simp add: down_env_def main_final_def main_hhll_def unhandled_rejection_exit_def)

text \<open>
  C10, as stated, fails: when the exchange-info request itself fails, \<^verbatim>\<open>axios.get\<close>
  rejects, the identifier \<^verbatim>\<open>data\<close> is never evaluated, and the error that reaches the
  fatal handler is the error of the request, not a ReferenceError.
\<close>

theorem ema100_request_failure_counterexample:
  "fatal_h (main_ema100 down_env) = Some TransportError"
  by (simp add: main_ema100_def down_env_def axios_get_def fatal_ema100_def)

text \<open>
  C10, amended. Every run of the EMA-100/200 script ends in its fatal handler with exit
  status 1, without a klines request and without writing a file. Whenever the
  exchange-info request returns a response, with a body that parses or not, the error is
  the ReferenceError of the undeclared \<^verbatim>\<open>data\<close>; when the request itself fails, it is
  the error of the request.
\<close>

theorem ema100_always_fatal:
  "exit_h (main_ema100 e) = 1
   \<and> requests_out_h (main_ema100 e) = []
   \<and> breadth_csv_h (main_ema100 e) = None
   \<and> values_csv_h (main_ema100 e) = None
   \<and> ((\<exists>body. exchangeInfo e = Inr body) \<or> exchangeInfo e = Inl DecodeError \<longrightarrow>
        fatal_h (main_ema100 e) = Some ReferenceError)
   \<and> (\<forall>err. exchangeInfo e = Inl err \<and> err \<noteq> DecodeError \<longrightarrow>
        fatal_h (main_ema100 e) = Some err)"
proof -
  have u: "''data'' \<notin> set declared_ema100"
    by (simp add: declared_ema100_def)
  show ?thesis
  proof (cases "axios_get (exchangeInfo e)")
    case (Inl err)
    then show ?thesis
      using u by (auto simp: main_ema100_def fatal_ema100_def axios_get_def
          split: sum.splits if_splits)
  next
    case (Inr resp)
    then show ?thesis
      using u by (auto simp: main_ema100_def fatal_ema100_def axios_get_def
          split: sum.splits if_splits)
  qed
qed

theorem ema100_always_fatal_witness:
  "exchangeInfo long_env = Inr [usdt_spot ''AUSDT'', usdt_spot ''BUSDT'']
   \<and> exit_h (main_ema100 long_env) = 1
   \<and> fatal_h (main_ema100 long_env) = Some ReferenceError
   \<and> values_csv_h (main_ema100 long_env) = None
   \<and> exchangeInfo down_env = Inl TransportError \<and> TransportError \<noteq> DecodeError
   \<and> exit_h (main_ema100 down_env) = 1
   \<and> breadth_csv_h (main_ema100 down_env) = None"
  using ema100_always_fatal [of long_env] ema100_always_fatal [of down_env] exchangeInfo_long
  by (simp add: down_env_def)

end
